theory Spec2Isabelle
  imports Main "HOL-Library.Word"
begin

unbundle bit_operations_syntax

section \<open>Data model (HD44780.h)\<close>

text \<open>
  \<^verbatim>\<open>uint8_t\<close> and \<^verbatim>\<open>char\<close> are 8-bit words. The macros of the header are plain C
  integers; where the source compares or multiplies them with a \<^verbatim>\<open>uint8_t\<close>, the
  operand is promoted to \<^verbatim>\<open>int\<close> first, which the model writes as \<open>unat\<close>.
\<close>

type_synonym u8 = "8 word"

definition HD44780_NUM_ROWS :: nat where
  "HD44780_NUM_ROWS = 2"

definition HD44780_NUM_COLS :: nat where
  "HD44780_NUM_COLS = 16"

definition HD44780_RS :: u8 where
  "HD44780_RS = push_bit 0 1"

definition HD44780_RW :: u8 where
  "HD44780_RW = push_bit 1 1"

definition HD44780_EN :: u8 where
  "HD44780_EN = push_bit 2 1"

definition HD44780_BACKLIGHT :: u8 where
  "HD44780_BACKLIGHT = push_bit 3 1"

definition HD44780_NUM_ELEMENTS :: nat where
  "HD44780_NUM_ELEMENTS = HD44780_NUM_ROWS * HD44780_NUM_COLS"

datatype HD44780_State = HD44780_READY | HD44780_BUSY | HD44780_TIMEOUT

datatype LCD1602_State = LCD1602_ON | LCD1602_OFF

datatype HD44780_User_Command_List =
  CLEAR_DISPLAY | RETURN_HOME | DISPLAY_ON | DISPLAY_OFF
  | CURSOR_ON | CURSOR_OFF | CURSOR_BLINK | CURSOR_UNBLINK

text \<open>
  The handle struct. \<^verbatim>\<open>Cursor_Position[2]\<close> is the pair (element 0, element 1), that
  is (row, column); \<^verbatim>\<open>Text\<close> is the character array, a list that a well-formed handle
  keeps at \<open>HD44780_NUM_ELEMENTS\<close> entries. The pointer \<^verbatim>\<open>HW061_I2C_Handle\<close> only names
  the bus every transfer goes to; the model has one bus, so the field is left out.
\<close>

record HD44780_HandleTypeDef =
  Cursor_Position :: "u8 \<times> u8"
  Text :: "u8 list"
  State :: HD44780_State
  PowerState :: LCD1602_State

text \<open>
  Everything the driver reads or writes besides the handle: the file-static
  \<^verbatim>\<open>AddressCounter\<close>, and the I2C bus behind the HAL. \<open>bus_tx\<close> is the list of bytes
  handed to \<^verbatim>\<open>HAL_I2C_Master_Transmit\<close>, oldest first. \<open>bus_rx k\<close> is the byte that the
  \<open>k\<close>-th call of \<^verbatim>\<open>HAL_I2C_Master_Receive\<close> leaves in the read buffer, whatever the
  display answers there; \<open>rx_count\<close> counts the calls made so far. The HAL status codes
  are dropped, as the source drops them, and \<^verbatim>\<open>HAL_Delay\<close> changes nothing here.
\<close>

record machine = HD44780_HandleTypeDef +
  AddressCounter :: u8
  bus_tx :: "u8 list"
  bus_rx :: "nat \<Rightarrow> u8"
  rx_count :: nat

definition HAL_I2C_Master_Transmit :: "u8 \<Rightarrow> machine \<Rightarrow> machine" where
  "HAL_I2C_Master_Transmit b m = m\<lparr>bus_tx := bus_tx m @ [b]\<rparr>"

definition HAL_I2C_Master_Receive :: "machine \<Rightarrow> u8 \<times> machine" where
  "HAL_I2C_Master_Receive m = (bus_rx m (rx_count m), m\<lparr>rx_count := Suc (rx_count m)\<rparr>)"

section \<open>Private functions (HD44780.c)\<close>

definition HD44780_Check_Status :: "machine \<Rightarrow> machine" where
  "HD44780_Check_Status m0 =
    (let ReadCommand = 0xF0 OR HD44780_BACKLIGHT OR HD44780_RW;
         m1 = HAL_I2C_Master_Transmit ReadCommand m0;
         ReadCommand = ReadCommand OR HD44780_EN;
         m2 = HAL_I2C_Master_Transmit ReadCommand m1;
         (ReadBuffer, m3) = HAL_I2C_Master_Receive m2;
         Data_7_4 = ReadBuffer AND 0xF0;
         ReadCommand = ReadCommand AND NOT HD44780_EN;
         m4 = HAL_I2C_Master_Transmit ReadCommand m3;
         ReadCommand = ReadCommand OR HD44780_EN;
         m5 = HAL_I2C_Master_Transmit ReadCommand m4;
         (ReadBuffer, m6) = HAL_I2C_Master_Receive m5;
         Data_3_0 = drop_bit 4 ReadBuffer AND 0x0F;
         ReadCommand = ReadCommand AND NOT HD44780_EN;
         m7 = HAL_I2C_Master_Transmit ReadCommand m6;
         Data = Data_7_4 OR Data_3_0
     in if Data AND push_bit 7 1 \<noteq> 0
        then m7\<lparr>State := HD44780_BUSY\<rparr>
        else m7\<lparr>State := HD44780_READY, AddressCounter := Data AND NOT (push_bit 7 1)\<rparr>)"

text \<open>
  The busy-flag loop that ends \<^verbatim>\<open>HD44780_Send_Command\<close> and \<^verbatim>\<open>HD44780_Send_Data\<close>:
  \<^verbatim>\<open>for (i = 0; i < 20; i++) { HD44780_Check_Status(..); if (State == READY) return; }\<close>.
  The flag of the result is \<open>True\<close> when the loop left the function by its
  \<^verbatim>\<open>return\<close>, \<open>False\<close> when it ran out of attempts.
\<close>

function busy_flag_loop :: "nat \<Rightarrow> machine \<Rightarrow> bool \<times> machine" where
  "busy_flag_loop i m =
    (if i < 20
     then (let m' = HD44780_Check_Status m
           in if State m' = HD44780_READY then (True, m') else busy_flag_loop (Suc i) m')
     else (False, m))"
  by pat_completeness auto
termination
  by (relation "measure (\<lambda>(i, m). 20 - i)") auto

declare busy_flag_loop.simps [simp del]

text \<open>
  \<^verbatim>\<open>HD44780_Error_Handler\<close> as the repository ships it: a loop with an empty body, which
  spins for as long as the state is not Ready. Not returning is the value \<open>None\<close>.
\<close>

partial_function (option) HD44780_Error_Handler :: "machine \<Rightarrow> machine option" where
  "HD44780_Error_Handler m =
    (if State m \<noteq> HD44780_READY then HD44780_Error_Handler m else Some m)"

text \<open>
  Where control leaves the statements of a send function: by returning, or by the call of
  \<^verbatim>\<open>HD44780_Error_Handler\<close>, which is the last statement of its branch.
\<close>

datatype exit = Return machine | Call_Error_Handler machine

definition finish :: "exit \<Rightarrow> machine option" where
  "finish e = (case e of Return m \<Rightarrow> Some m | Call_Error_Handler m \<Rightarrow> HD44780_Error_Handler m)"

definition confirm_busy_clear :: "bool \<Rightarrow> machine \<Rightarrow> exit" where
  "confirm_busy_clear CheckBusyFlag m =
    (if CheckBusyFlag
     then (case busy_flag_loop 0 m of
             (True, m') \<Rightarrow> Return m'
           | (False, m') \<Rightarrow> Call_Error_Handler (m'\<lparr>State := HD44780_TIMEOUT\<rparr>))
     else Return (m\<lparr>State := HD44780_READY\<rparr>))"

definition HD44780_Send_Command_body :: "machine \<Rightarrow> u8 \<Rightarrow> bool \<Rightarrow> exit" where
  "HD44780_Send_Command_body m0 Command CheckBusyFlag =
    (let m1 = m0\<lparr>State := HD44780_BUSY\<rparr>;
         WriteCommand = 0;
         Command_7_4 = 0xF0 AND Command;
         Command_3_0 = 0xF0 AND push_bit 4 Command;
         WriteCommand = WriteCommand OR (Command_7_4 OR HD44780_BACKLIGHT OR HD44780_EN);
         m2 = HAL_I2C_Master_Transmit WriteCommand m1;
         WriteCommand = WriteCommand AND NOT HD44780_EN;
         m3 = HAL_I2C_Master_Transmit WriteCommand m2;
         WriteCommand = WriteCommand AND 0x0F;
         WriteCommand = WriteCommand OR (Command_3_0 OR HD44780_BACKLIGHT OR HD44780_EN);
         m4 = HAL_I2C_Master_Transmit WriteCommand m3;
         WriteCommand = WriteCommand AND NOT HD44780_EN;
         m5 = HAL_I2C_Master_Transmit WriteCommand m4
     in confirm_busy_clear CheckBusyFlag m5)"

definition HD44780_Send_Command :: "machine \<Rightarrow> u8 \<Rightarrow> bool \<Rightarrow> machine option" where
  "HD44780_Send_Command m Command CheckBusyFlag =
    finish (HD44780_Send_Command_body m Command CheckBusyFlag)"

definition HD44780_Send_Data_body :: "machine \<Rightarrow> u8 \<Rightarrow> bool \<Rightarrow> exit" where
  "HD44780_Send_Data_body m0 Command CheckBusyFlag =
    (let m1 = m0\<lparr>State := HD44780_BUSY\<rparr>;
         WriteCommand = 0;
         Command_7_4 = 0xF0 AND Command;
         Command_3_0 = 0xF0 AND push_bit 4 Command;
         WriteCommand = WriteCommand OR (HD44780_BACKLIGHT OR HD44780_RS);
         m2 = HAL_I2C_Master_Transmit WriteCommand m1;
         WriteCommand = WriteCommand
                          OR (Command_7_4 OR HD44780_BACKLIGHT OR HD44780_EN OR HD44780_RS);
         m3 = HAL_I2C_Master_Transmit WriteCommand m2;
         WriteCommand = WriteCommand AND NOT HD44780_EN;
         m4 = HAL_I2C_Master_Transmit WriteCommand m3;
         WriteCommand = WriteCommand AND 0x0F;
         WriteCommand = WriteCommand
                          OR (Command_3_0 OR HD44780_BACKLIGHT OR HD44780_EN OR HD44780_RS);
         m5 = HAL_I2C_Master_Transmit WriteCommand m4;
         WriteCommand = WriteCommand AND NOT HD44780_EN;
         m6 = HAL_I2C_Master_Transmit WriteCommand m5
     in confirm_busy_clear CheckBusyFlag m6)"

definition HD44780_Send_Data :: "machine \<Rightarrow> u8 \<Rightarrow> bool \<Rightarrow> machine option" where
  "HD44780_Send_Data m Command CheckBusyFlag =
    finish (HD44780_Send_Data_body m Command CheckBusyFlag)"

definition HD44780_Get_Cursor_Position :: "machine \<Rightarrow> machine" where
  "HD44780_Get_Cursor_Position m0 =
    (let m1 = HD44780_Check_Status m0;
         AddressCopy = AddressCounter m1
     in if AddressCopy < 40
        then m1\<lparr>Cursor_Position := (0, AddressCopy)\<rparr>
        else m1\<lparr>Cursor_Position := (1, AddressCopy - 64)\<rparr>)"

text \<open>
  \<^verbatim>\<open>Clear_Text_Buffer\<close>: the loop over \<open>i = 0 .. HD44780_NUM_ELEMENTS - 1\<close> storing the
  null character, as a fold of the indices it visits. A store past the end of the list
  does not happen on a well-formed handle, and changes nothing in the model.
\<close>

definition Clear_Text_Buffer :: "machine \<Rightarrow> machine" where
  "Clear_Text_Buffer m =
    fold (\<lambda>i m'. m'\<lparr>Text := (Text m')[i := 0]\<rparr>) [0 ..< HD44780_NUM_ELEMENTS] m"

section \<open>Public functions (HD44780.c)\<close>

definition HD44780_Set_Cursor_Position :: "machine \<Rightarrow> u8 \<Rightarrow> u8 \<Rightarrow> machine option" where
  "HD44780_Set_Cursor_Position m row column =
    (if unat row \<ge> HD44780_NUM_ROWS \<or> unat column \<ge> HD44780_NUM_COLS
     then Some m
     else if row = 0
          then HD44780_Send_Command m (0x80 OR column) True
          else HD44780_Send_Command m (0x80 OR 0x40 OR column) True)"

definition HD44780_Transmit_Command ::
    "machine \<Rightarrow> HD44780_User_Command_List \<Rightarrow> machine option" where
  "HD44780_Transmit_Command m UserCommand =
    (if PowerState m = LCD1602_ON
     then (case UserCommand of
             CLEAR_DISPLAY \<Rightarrow>
               (case HD44780_Send_Command m 0x01 True of
                  None \<Rightarrow> None
                | Some m1 \<Rightarrow> Some ((Clear_Text_Buffer m1)\<lparr>Cursor_Position := (0, 0)\<rparr>))
           | RETURN_HOME \<Rightarrow>
               (case HD44780_Send_Command m 0x02 True of
                  None \<Rightarrow> None
                | Some m1 \<Rightarrow> Some (m1\<lparr>Cursor_Position := (0, 0)\<rparr>))
           | DISPLAY_OFF \<Rightarrow>
               Some ((HAL_I2C_Master_Transmit 0 m)\<lparr>PowerState := LCD1602_OFF\<rparr>)
           | CURSOR_ON \<Rightarrow> HD44780_Send_Command m 0x0E True
           | CURSOR_OFF \<Rightarrow> HD44780_Send_Command m 0x0C True
           | CURSOR_BLINK \<Rightarrow> HD44780_Send_Command m 0x0D True
           | CURSOR_UNBLINK \<Rightarrow> HD44780_Send_Command m 0x0C True
           | DISPLAY_ON \<Rightarrow> Some m)
     else if PowerState m = LCD1602_OFF
     then (case UserCommand of
             DISPLAY_ON \<Rightarrow>
               Some ((HAL_I2C_Master_Transmit HD44780_BACKLIGHT m)\<lparr>PowerState := LCD1602_ON\<rparr>)
           | _ \<Rightarrow> Some m)
     else Some m)"

text \<open>
  \<^verbatim>\<open>strlen\<close>: the number of characters before the first null character. The list is
  the memory the pointer refers to; its end stands for a terminator when it holds none.
\<close>

definition strlen :: "u8 list \<Rightarrow> nat" where
  "strlen str = length (takeWhile (\<lambda>c. c \<noteq> 0) str)"

text \<open>
  The loop of \<^verbatim>\<open>HD44780_Print\<close>, with the statement that follows it: the \<^verbatim>\<open>return\<close>
  inside the loop leaves the function without the closing
  \<^verbatim>\<open>HD44780_Get_Cursor_Position\<close>.
\<close>

function HD44780_Print_loop :: "u8 list \<Rightarrow> u8 \<Rightarrow> nat \<Rightarrow> machine \<Rightarrow> machine option" where
  "HD44780_Print_loop str startindex i m =
    (if i < strlen str
     then if unat startindex + i > HD44780_NUM_ELEMENTS - 1
          then HD44780_Set_Cursor_Position m 0 0
          else (case HD44780_Send_Data m (str ! i) True of
                  None \<Rightarrow> None
                | Some m1 \<Rightarrow>
                    (let m2 = m1\<lparr>Text := (Text m1)[unat startindex + i := str ! i]\<rparr>
                     in if unat (AddressCounter m2) = HD44780_NUM_COLS
                        then (case HD44780_Set_Cursor_Position m2 1 0 of
                                None \<Rightarrow> None
                              | Some m3 \<Rightarrow> HD44780_Print_loop str startindex (Suc i) m3)
                        else HD44780_Print_loop str startindex (Suc i) m2))
     else Some (HD44780_Get_Cursor_Position m))"
  by pat_completeness auto
termination
  by (relation "measure (\<lambda>(str, startindex, i, m). strlen str - i)") auto

declare HD44780_Print_loop.simps [simp del]

definition HD44780_Print :: "machine \<Rightarrow> u8 list \<Rightarrow> machine option" where
  "HD44780_Print m0 str =
    (let m1 = HD44780_Get_Cursor_Position m0;
         row = fst (Cursor_Position m1);
         column = snd (Cursor_Position m1);
         startindex = (word_of_nat (unat row * HD44780_NUM_COLS + unat column) :: u8)
     in HD44780_Print_loop str startindex 0 m1)"

definition HD44780_Read_Character :: "machine \<Rightarrow> u8 \<Rightarrow> u8 \<Rightarrow> u8" where
  "HD44780_Read_Character m row column =
    (if unat row \<ge> HD44780_NUM_ROWS \<or> unat column \<ge> HD44780_NUM_COLS
     then 0
     else (let index = (word_of_nat (unat row * HD44780_NUM_COLS + unat column) :: u8)
           in Text m ! unat index))"

definition HD44780_Get_Row_Index :: "machine \<Rightarrow> u8" where
  "HD44780_Get_Row_Index m = fst (Cursor_Position m)"

definition HD44780_Get_Column_Index :: "machine \<Rightarrow> u8" where
  "HD44780_Get_Column_Index m = snd (Cursor_Position m)"

text \<open>
  \<^verbatim>\<open>HD44780_Animate_Text\<close>: the search for a character other than null, then
  \<open>NumberOfScrolls * (80 / HD44780_NUM_ROWS)\<close> shift commands sent without busy
  confirmation, which always return.
\<close>

fun shift_loop :: "nat \<Rightarrow> machine \<Rightarrow> machine option" where
  "shift_loop 0 m = Some m"
| "shift_loop (Suc n) m =
    (case HD44780_Send_Command m 0x1C False of
       None \<Rightarrow> None
     | Some m' \<Rightarrow> shift_loop n m')"

definition HD44780_Animate_Text :: "machine \<Rightarrow> u8 \<Rightarrow> machine option" where
  "HD44780_Animate_Text m NumberOfScrolls =
    (let TextPresent = (\<exists>i \<in> set [0 ..< HD44780_NUM_ELEMENTS]. Text m ! i \<noteq> 0)
     in if TextPresent
        then (let BytesPerRow = 80 div HD44780_NUM_ROWS;
                  NumberOfShifts = unat NumberOfScrolls * BytesPerRow
              in shift_loop NumberOfShifts m)
        else Some m)"

text \<open>
  The byte that \<^verbatim>\<open>HD44780_Transmit_Command\<close> assigns to its local \<^verbatim>\<open>Command\<close> in the
  case of each user command.
\<close>

definition Command_of :: "HD44780_User_Command_List \<Rightarrow> u8" where
  "Command_of UserCommand =
    (case UserCommand of
       CLEAR_DISPLAY \<Rightarrow> 0x01
     | RETURN_HOME \<Rightarrow> 0x02
     | DISPLAY_ON \<Rightarrow> HD44780_BACKLIGHT
     | DISPLAY_OFF \<Rightarrow> 0
     | CURSOR_ON \<Rightarrow> 0x0E
     | CURSOR_OFF \<Rightarrow> 0x0C
     | CURSOR_BLINK \<Rightarrow> 0x0D
     | CURSOR_UNBLINK \<Rightarrow> 0x0C)"

section \<open>Reading the bus\<close>

text \<open>
  The byte that the next \<^verbatim>\<open>HD44780_Check_Status\<close> assembles from the two bytes it
  receives: the upper four bits of the first, and the upper four bits of the second moved
  down. Bit 7 is the busy flag, bits 0 to 6 the address counter.
\<close>

definition next_status :: "machine \<Rightarrow> u8" where
  "next_status m =
    (bus_rx m (rx_count m) AND 0xF0) OR (drop_bit 4 (bus_rx m (Suc (rx_count m))) AND 0x0F)"

text \<open>
  The display answers Ready to one of the next \<open>n\<close> status reads: a status read takes two
  received bytes, and the busy flag is bit 7 of the first.
\<close>

definition ready_within :: "nat \<Rightarrow> machine \<Rightarrow> bool" where
  "ready_within n m = (\<exists>k \<in> set [0 ..< n]. \<not> bit (bus_rx m (rx_count m + 2 * k)) 7)"

text \<open>The display answers Ready to each of the next \<open>n\<close> status reads.\<close>

definition ready_for :: "nat \<Rightarrow> machine \<Rightarrow> bool" where
  "ready_for n m = (\<forall>k \<in> set [0 ..< n]. \<not> bit (bus_rx m (rx_count m + 2 * k)) 7)"

text \<open>
  The bytes of the three kinds of transfer, as they appear on the bus: a command byte, a
  data byte, one status read.
\<close>

definition command_frame :: "u8 \<Rightarrow> u8 list" where
  "command_frame c =
    [(0xF0 AND c) OR 0x0C, (0xF0 AND c) OR 0x08,
     (0xF0 AND push_bit 4 c) OR 0x0C, (0xF0 AND push_bit 4 c) OR 0x08]"

definition data_frame :: "u8 \<Rightarrow> u8 list" where
  "data_frame c =
    [0x09, (0xF0 AND c) OR 0x0D, (0xF0 AND c) OR 0x09,
     (0xF0 AND push_bit 4 c) OR 0x0D, (0xF0 AND push_bit 4 c) OR 0x09]"

definition status_frame :: "u8 list" where
  "status_frame = [0xFA, 0xFE, 0xFA, 0xFE, 0xFA]"

text \<open>
  What the display latches from a run of bus writes. It takes the upper four bits of a
  byte when the enable bit (bit 2) of that byte is set and the read/write bit (bit 1) is
  clear: into the instruction register when register-select (bit 0) is clear, into the
  data register when it is set.
\<close>

definition command_nibbles :: "u8 list \<Rightarrow> u8 list" where
  "command_nibbles bs = map (\<lambda>b. b AND 0xF0) (filter (\<lambda>b. b AND 0x07 = 0x04) bs)"

definition data_nibbles :: "u8 list \<Rightarrow> u8 list" where
  "data_nibbles bs = map (\<lambda>b. b AND 0xF0) (filter (\<lambda>b. b AND 0x07 = 0x05) bs)"

definition nibbles_of :: "u8 \<Rightarrow> u8 list" where
  "nibbles_of c = [c AND 0xF0, push_bit 4 c AND 0xF0]"

text \<open>The last instruction on the bus: the last two latched nibbles, upper one first.\<close>

definition last_command :: "u8 list \<Rightarrow> u8" where
  "last_command bs =
    (let ns = command_nibbles bs
     in (ns ! (length ns - 2)) OR drop_bit 4 (ns ! (length ns - 1)))"

text \<open>The bytes a call added to the bus, given the machine before and after it.\<close>

definition sent :: "machine \<Rightarrow> machine \<Rightarrow> u8 list" where
  "sent m m' = drop (length (bus_tx m)) (bus_tx m')"

text \<open>The machine an \<open>exit\<close> carries.\<close>

definition machine_of :: "exit \<Rightarrow> machine" where
  "machine_of e = (case e of Return m \<Rightarrow> m | Call_Error_Handler m \<Rightarrow> m)"

section \<open>Example machines\<close>

text \<open>
  A handle after initialisation with the display on, behind a display that answers every
  status read after the first \<open>busy\<close> ones with Ready and the address \<open>ac\<close>.
\<close>

definition example_machine :: "nat \<Rightarrow> u8 \<Rightarrow> machine" where
  "example_machine busy ac =
    \<lparr>Cursor_Position = (0, 0), Text = replicate 32 0, State = HD44780_READY,
     PowerState = LCD1602_ON, AddressCounter = 0, bus_tx = [],
     bus_rx = (\<lambda>k. if k < 2 * busy then 0x80
                    else if even k then ac AND 0xF0 else push_bit 4 ac),
     rx_count = 0\<rparr>"

text \<open>
  The same handle behind a display that is never busy and reports the addresses a real
  display goes through while three characters are printed from row 0, column 14: 14 at
  the start, 15 and 16 after the first two characters, 0x40 after the cursor is moved to
  row 1, and 0x41 after the third character and at the end. Each status read takes two
  bytes, the upper and the lower half of the address, both in bits 4 to 7.
\<close>

definition wrap_machine :: machine where
  "wrap_machine =
    \<lparr>Cursor_Position = (0, 0), Text = replicate 32 0, State = HD44780_READY,
     PowerState = LCD1602_ON, AddressCounter = 0, bus_tx = [],
     bus_rx = (\<lambda>k. if k < 12
                    then [0x00, 0xE0, 0x00, 0xF0, 0x10, 0x00, 0x40, 0x00, 0x40, 0x10, 0x40, 0x10] ! k
                    else 0),
     rx_count = 0\<rparr>"

section \<open>Basic facts\<close>

lemmas ctrl_bits = HD44780_RS_def HD44780_RW_def HD44780_EN_def HD44780_BACKLIGHT_def

lemmas geometry = HD44780_NUM_ROWS_def HD44780_NUM_COLS_def HD44780_NUM_ELEMENTS_def

lemma bits8:
  "(a::u8) = b \<longleftrightarrow>
     (bit a 0 = bit b 0 \<and> bit a 1 = bit b 1 \<and> bit a 2 = bit b 2 \<and> bit a 3 = bit b 3 \<and>
      bit a 4 = bit b 4 \<and> bit a 5 = bit b 5 \<and> bit a 6 = bit b 6 \<and> bit a 7 = bit b 7)"
proof
  assume r: "bit a 0 = bit b 0 \<and> bit a 1 = bit b 1 \<and> bit a 2 = bit b 2 \<and> bit a 3 = bit b 3 \<and>
      bit a 4 = bit b 4 \<and> bit a 5 = bit b 5 \<and> bit a 6 = bit b 6 \<and> bit a 7 = bit b 7"
  show "a = b"
  proof (rule bit_word_eqI)
    fix n assume "n < LENGTH(8)"
    then have "n \<in> {0, 1, 2, 3, 4, 5, 6, 7}"
      by auto
    with r show "bit a n = bit b n" by auto
  qed
qed simp

lemma busy_test: "(d AND 128 = (0::u8)) = (\<not> bit d 7)"
  by (simp add: bits8 bit_simps)

lemma ac_mask: "d AND - 129 = d AND (0x7F::u8)"
  by (simp add: bits8 bit_simps)

lemma busy_bit_next_status: "bit (next_status m) 7 = bit (bus_rx m (rx_count m)) 7"
  by (simp add: next_status_def bit_simps)

lemma Check_Status_eq:
  "HD44780_Check_Status m =
     (if bit (next_status m) 7
      then m\<lparr>State := HD44780_BUSY,
             bus_tx := bus_tx m @ status_frame,
             rx_count := rx_count m + 2\<rparr>
      else m\<lparr>State := HD44780_READY,
             AddressCounter := next_status m AND 0x7F,
             bus_tx := bus_tx m @ status_frame,
             rx_count := rx_count m + 2\<rparr>)"
  by (auto simp: HD44780_Check_Status_def HAL_I2C_Master_Transmit_def HAL_I2C_Master_Receive_def
      Let_def busy_test ac_mask next_status_def ctrl_bits status_frame_def intro!: machine.equality)

lemma Check_Status_fields [simp]:
  "Cursor_Position (HD44780_Check_Status m) = Cursor_Position m"
  "Text (HD44780_Check_Status m) = Text m"
  "PowerState (HD44780_Check_Status m) = PowerState m"
  "bus_rx (HD44780_Check_Status m) = bus_rx m"
  "rx_count (HD44780_Check_Status m) = rx_count m + 2"
  "bus_tx (HD44780_Check_Status m) = bus_tx m @ status_frame"
  by (simp_all add: Check_Status_eq)

lemma Check_Status_State:
  "State (HD44780_Check_Status m) = (if bit (bus_rx m (rx_count m)) 7 then HD44780_BUSY else HD44780_READY)"
  by (simp add: Check_Status_eq busy_bit_next_status)

lemma Check_Status_AddressCounter:
  "AddressCounter (HD44780_Check_Status m) =
     (if bit (next_status m) 7 then AddressCounter m else next_status m AND 0x7F)"
  by (simp add: Check_Status_eq)

lemma Get_Cursor_Position_fields [simp]:
  "Text (HD44780_Get_Cursor_Position m) = Text m"
  "PowerState (HD44780_Get_Cursor_Position m) = PowerState m"
  "bus_rx (HD44780_Get_Cursor_Position m) = bus_rx m"
  "rx_count (HD44780_Get_Cursor_Position m) = rx_count m + 2"
  "bus_tx (HD44780_Get_Cursor_Position m) = bus_tx m @ status_frame"
  "AddressCounter (HD44780_Get_Cursor_Position m) = AddressCounter (HD44780_Check_Status m)"
  "State (HD44780_Get_Cursor_Position m) = State (HD44780_Check_Status m)"
  by (simp_all add: HD44780_Get_Cursor_Position_def Let_def)

lemma Get_Cursor_Position_cursor:
  "Cursor_Position (HD44780_Get_Cursor_Position m) =
     (let a = AddressCounter (HD44780_Check_Status m)
      in if a < 40 then (0, a) else (1, a - 64))"
  by (simp add: HD44780_Get_Cursor_Position_def Let_def)

lemma sub_64_unat:
  "unat (a - (64::u8)) = (if 64 \<le> unat a then unat a - 64 else unat a + 192)"
  by (simp add: unat_sub_if_size word_size)

section \<open>Cursor translation\<close>

text \<open>
  C1. A status read that finds the busy flag clear stores the 7-bit address \<open>a\<close> it
  read in \<open>AddressCounter\<close> and sets the state to Ready, and
  \<^verbatim>\<open>HD44780_Get_Cursor_Position\<close> caches (0, a) when \<open>a < 40\<close> and (1, a - 64) when
  \<open>a \<ge> 40\<close>. The subtraction is the 8-bit one of the source: it is the plain difference
  from address 64 on, and \<open>a + 192\<close> for the addresses 40 to 63.
\<close>

theorem C1_cursor_translation:
  "\<not> bit (next_status m) 7 \<Longrightarrow>
   a = next_status m AND 0x7F \<Longrightarrow>
   m' = HD44780_Get_Cursor_Position m \<Longrightarrow>
     State m' = HD44780_READY \<and> AddressCounter m' = a \<and>
     (a < 40 \<longrightarrow> Cursor_Position m' = (0, a)) \<and>
     (a \<ge> 40 \<longrightarrow> Cursor_Position m' = (1, a - 64)) \<and>
     (a \<ge> 64 \<longrightarrow> unat (a - 64) = unat a - 64) \<and>
     (a \<ge> 40 \<and> a < 64 \<longrightarrow> unat (a - 64) = unat a + 192)"
  by (simp add: Get_Cursor_Position_cursor Check_Status_AddressCounter Check_Status_State
      busy_bit_next_status Let_def not_less sub_64_unat word_le_nat_alt word_less_nat_alt)

theorem C1_cursor_translation_witness:
  "Cursor_Position (HD44780_Get_Cursor_Position (example_machine 0 0x45)) = (1, 5) \<and>
   Cursor_Position (HD44780_Get_Cursor_Position (example_machine 0 0x0B)) = (0, 11)"
  using C1_cursor_translation [of "example_machine 0 0x45" "0x45" "HD44780_Get_Cursor_Position (example_machine 0 0x45)"]
    C1_cursor_translation [of "example_machine 0 0x0B" "0x0B" "HD44780_Get_Cursor_Position (example_machine 0 0x0B)"]
  by (simp add: next_status_def example_machine_def)

section \<open>The error handler\<close>

lemma Error_Handler_Some: "HD44780_Error_Handler m = Some m' \<Longrightarrow> State m = HD44780_READY"
  by (erule HD44780_Error_Handler.raw_induct [rotated]) (auto split: if_splits)

lemma Error_Handler_eq:
  "HD44780_Error_Handler m = (if State m = HD44780_READY then Some m else None)"
proof (cases "State m = HD44780_READY")
  case True
  then show ?thesis by (subst HD44780_Error_Handler.simps) simp
next
  case False
  then have "HD44780_Error_Handler m = None"
    using Error_Handler_Some [of m] by (cases "HD44780_Error_Handler m") auto
  with False show ?thesis by simp
qed

section \<open>The busy-flag loop\<close>

lemma busy_flag_loop_fields:
  "busy_flag_loop i m = (b, m') \<Longrightarrow>
     Cursor_Position m' = Cursor_Position m \<and> Text m' = Text m \<and>
     PowerState m' = PowerState m \<and> bus_rx m' = bus_rx m"
proof (induction i m rule: busy_flag_loop.induct)
  case (1 i m)
  show ?case
  proof (cases "i < 20 \<and> State (HD44780_Check_Status m) \<noteq> HD44780_READY")
    case True
    with "1.prems" have "busy_flag_loop (Suc i) (HD44780_Check_Status m) = (b, m')"
      by (subst (asm) busy_flag_loop.simps) (simp add: Let_def)
    with "1.IH" [OF _ refl] True show ?thesis by simp
  next
    case False
    with "1.prems" show ?thesis
      by (subst (asm) busy_flag_loop.simps) (auto simp: Let_def split: if_splits)
  qed
qed

lemma busy_flag_loop_True:
  "busy_flag_loop i m = (True, m') \<Longrightarrow> State m' = HD44780_READY"
proof (induction i m rule: busy_flag_loop.induct)
  case (1 i m)
  show ?case
  proof (cases "i < 20 \<and> State (HD44780_Check_Status m) \<noteq> HD44780_READY")
    case True
    with "1.prems" have "busy_flag_loop (Suc i) (HD44780_Check_Status m) = (True, m')"
      by (subst (asm) busy_flag_loop.simps) (simp add: Let_def)
    with "1.IH" [OF _ refl] True show ?thesis by simp
  next
    case False
    with "1.prems" show ?thesis
      by (subst (asm) busy_flag_loop.simps) (auto simp: Let_def split: if_splits)
  qed
qed

text \<open>The bus traffic of the loop: a number of status reads, at most the attempts left.\<close>

lemma busy_flag_loop_bus:
  "busy_flag_loop i m = (b, m') \<Longrightarrow>
     \<exists>n. n \<le> 20 - i \<and> (\<not> b \<longrightarrow> n = 20 - i) \<and> (b \<longrightarrow> 0 < n) \<and>
         bus_tx m' = bus_tx m @ concat (replicate n status_frame) \<and>
         rx_count m' = rx_count m + 2 * n"
proof (induction i m rule: busy_flag_loop.induct)
  case (1 i m)
  show ?case
  proof (cases "i < 20 \<and> State (HD44780_Check_Status m) \<noteq> HD44780_READY")
    case True
    with "1.prems" have "busy_flag_loop (Suc i) (HD44780_Check_Status m) = (b, m')"
      by (subst (asm) busy_flag_loop.simps) (simp add: Let_def)
    with "1.IH" [OF _ refl] True obtain n where n: "n \<le> 20 - Suc i" "\<not> b \<longrightarrow> n = 20 - Suc i"
      "bus_tx m' = bus_tx (HD44780_Check_Status m) @ concat (replicate n status_frame)"
      "rx_count m' = rx_count (HD44780_Check_Status m) + 2 * n"
      by auto
    with True show ?thesis
      by (intro exI [of _ "Suc n"]) auto
  next
    case False
    show ?thesis
    proof (cases "i < 20")
      case True
      with False "1.prems" have "b" "m' = HD44780_Check_Status m"
        by (subst (asm) busy_flag_loop.simps; simp add: Let_def)+
      with True show ?thesis by (intro exI [of _ 1]) simp
    next
      case False
      with "1.prems" have "\<not> b" "m' = m"
        by (subst (asm) busy_flag_loop.simps; simp add: Let_def)+
      with False show ?thesis by (intro exI [of _ 0]) simp
    qed
  qed
qed

lemma ready_within_Suc:
  "ready_within (Suc n) m \<longleftrightarrow>
     \<not> bit (bus_rx m (rx_count m)) 7 \<or> ready_within n (HD44780_Check_Status m)"
proof -
  let ?Q = "\<lambda>k. \<not> bit (bus_rx m (rx_count m + 2 * k)) 7"
  have A: "ready_within (Suc n) m \<longleftrightarrow> (\<exists>k. k < Suc n \<and> ?Q k)"
    unfolding ready_within_def Bex_def set_upt atLeastLessThan_iff by blast
  have B: "ready_within n (HD44780_Check_Status m) \<longleftrightarrow> (\<exists>k. k < n \<and> ?Q (Suc k))"
    unfolding ready_within_def Bex_def set_upt atLeastLessThan_iff by simp
  have C: "(\<exists>k. k < Suc n \<and> ?Q k) \<longleftrightarrow> ?Q 0 \<or> (\<exists>k. k < n \<and> ?Q (Suc k))"
    by (metis less_Suc_eq_0_disj)
  show ?thesis unfolding A B C by simp
qed

lemma busy_flag_loop_ready:
  "i \<le> 20 \<Longrightarrow> fst (busy_flag_loop i m) \<longleftrightarrow> ready_within (20 - i) m"
proof (induction i m rule: busy_flag_loop.induct)
  case (1 i m)
  show ?case
  proof (cases "i < 20")
    case True
    then have s: "20 - i = Suc (20 - Suc i)" by simp
    show ?thesis
    proof (cases "State (HD44780_Check_Status m) = HD44780_READY")
      case r: True
      then show ?thesis using True
        by (subst busy_flag_loop.simps)
          (simp add: Let_def s ready_within_Suc Check_Status_State split: if_splits)
    next
      case r: False
      with True "1.IH" [OF True refl r] show ?thesis
        by (subst busy_flag_loop.simps)
          (simp add: Let_def s ready_within_Suc Check_Status_State split: if_splits)
    qed
  next
    case False
    with "1.prems" show ?thesis
      by (subst busy_flag_loop.simps) (simp add: ready_within_def)
  qed
qed

section \<open>Sending a byte\<close>

lemma Send_Command_body_eq:
  "HD44780_Send_Command_body m c chk =
     confirm_busy_clear chk (m\<lparr>State := HD44780_BUSY, bus_tx := bus_tx m @ command_frame c\<rparr>)"
  unfolding HD44780_Send_Command_body_def HAL_I2C_Master_Transmit_def Let_def
  by (rule arg_cong [where f = "confirm_busy_clear chk"], rule machine.equality)
    (simp_all add: ctrl_bits command_frame_def bits8 bit_simps)

lemma Send_Data_body_eq:
  "HD44780_Send_Data_body m c chk =
     confirm_busy_clear chk (m\<lparr>State := HD44780_BUSY, bus_tx := bus_tx m @ data_frame c\<rparr>)"
  unfolding HD44780_Send_Data_body_def HAL_I2C_Master_Transmit_def Let_def
  by (rule arg_cong [where f = "confirm_busy_clear chk"], rule machine.equality)
    (simp_all add: ctrl_bits data_frame_def bits8 bit_simps)

lemma confirm_not_checked:
  "finish (confirm_busy_clear False m) = Some (m\<lparr>State := HD44780_READY\<rparr>)"
  by (simp add: confirm_busy_clear_def finish_def)

lemma confirm_ready:
  assumes "ready_within 20 m"
  shows "\<exists>m'. confirm_busy_clear True m = Return m' \<and> finish (confirm_busy_clear True m) = Some m'"
proof -
  obtain b m' where r: "busy_flag_loop 0 m = (b, m')" by fastforce
  with assms busy_flag_loop_ready [of 0 m] have "b" by simp
  with r show ?thesis by (simp add: confirm_busy_clear_def finish_def)
qed

lemma confirm_timeout:
  assumes "\<not> ready_within 20 m"
  shows "\<exists>m'. confirm_busy_clear True m = Call_Error_Handler m' \<and> State m' = HD44780_TIMEOUT \<and>
           bus_tx m' = bus_tx m @ concat (replicate 20 status_frame) \<and>
           rx_count m' = rx_count m + 40 \<and>
           Cursor_Position m' = Cursor_Position m \<and> Text m' = Text m \<and>
           PowerState m' = PowerState m \<and> bus_rx m' = bus_rx m \<and>
           finish (confirm_busy_clear True m) = None"
proof -
  obtain b m' where r: "busy_flag_loop 0 m = (b, m')" by fastforce
  with assms busy_flag_loop_ready [of 0 m] have b: "\<not> b" by simp
  from busy_flag_loop_bus [OF r] b have
    "bus_tx m' = bus_tx m @ concat (replicate 20 status_frame)" "rx_count m' = rx_count m + 40"
    by auto
  moreover note busy_flag_loop_fields [OF r]
  ultimately show ?thesis using r b
    by (simp add: confirm_busy_clear_def finish_def Error_Handler_eq)
qed

lemma confirm_Some:
  assumes "finish (confirm_busy_clear True m) = Some m'"
  shows "ready_within 20 m \<and> confirm_busy_clear True m = Return m' \<and>
         State m' = HD44780_READY \<and>
         (\<exists>n. 0 < n \<and> n \<le> 20 \<and> bus_tx m' = bus_tx m @ concat (replicate n status_frame) \<and>
              rx_count m' = rx_count m + 2 * n) \<and>
         Cursor_Position m' = Cursor_Position m \<and> Text m' = Text m \<and>
         PowerState m' = PowerState m \<and> bus_rx m' = bus_rx m"
proof -
  have rw: "ready_within 20 m"
    using assms confirm_timeout [of m] by (cases "ready_within 20 m") auto
  obtain b m1 where r: "busy_flag_loop 0 m = (b, m1)" by fastforce
  with rw busy_flag_loop_ready [of 0 m] have b: "b" by simp
  with r assms have m1: "m1 = m'" by (simp add: confirm_busy_clear_def finish_def)
  from busy_flag_loop_bus [OF r] b obtain n where
    "0 < n" "n \<le> 20" "bus_tx m1 = bus_tx m @ concat (replicate n status_frame)"
    "rx_count m1 = rx_count m + 2 * n" by auto
  moreover note busy_flag_loop_fields [OF r] busy_flag_loop_True [OF r [unfolded b [THEN eqTrueI]]]
  ultimately show ?thesis using r b rw m1
    by (auto simp: confirm_busy_clear_def)
qed

lemma ready_within_cong [simp]:
  "ready_within n (m\<lparr>State := s\<rparr>) = ready_within n m"
  "ready_within n (m\<lparr>bus_tx := t\<rparr>) = ready_within n m"
  "ready_within n (m\<lparr>Text := x\<rparr>) = ready_within n m"
  "ready_within n (m\<lparr>Cursor_Position := p\<rparr>) = ready_within n m"
  "ready_within n (m\<lparr>PowerState := q\<rparr>) = ready_within n m"
  by (simp_all add: ready_within_def)

lemma Send_Command_unchecked:
  "HD44780_Send_Command m c False =
     Some (m\<lparr>State := HD44780_READY, bus_tx := bus_tx m @ command_frame c\<rparr>)"
  by (simp add: HD44780_Send_Command_def Send_Command_body_eq confirm_not_checked)

lemma Send_Data_unchecked:
  "HD44780_Send_Data m c False =
     Some (m\<lparr>State := HD44780_READY, bus_tx := bus_tx m @ data_frame c\<rparr>)"
  by (simp add: HD44780_Send_Data_def Send_Data_body_eq confirm_not_checked)

lemma Send_Command_returns:
  "ready_within 20 m \<Longrightarrow> \<exists>m'. HD44780_Send_Command m c True = Some m'"
  using confirm_ready [of "m\<lparr>State := HD44780_BUSY, bus_tx := bus_tx m @ command_frame c\<rparr>"]
  by (auto simp: HD44780_Send_Command_def Send_Command_body_eq)

lemma Send_Data_returns:
  "ready_within 20 m \<Longrightarrow> \<exists>m'. HD44780_Send_Data m c True = Some m'"
  using confirm_ready [of "m\<lparr>State := HD44780_BUSY, bus_tx := bus_tx m @ data_frame c\<rparr>"]
  by (auto simp: HD44780_Send_Data_def Send_Data_body_eq)

lemma Send_Command_Some:
  assumes "HD44780_Send_Command m c True = Some m'"
  shows "ready_within 20 m \<and> State m' = HD44780_READY \<and>
         (\<exists>n. 0 < n \<and> n \<le> 20 \<and>
              bus_tx m' = bus_tx m @ command_frame c @ concat (replicate n status_frame) \<and>
              rx_count m' = rx_count m + 2 * n) \<and>
         Cursor_Position m' = Cursor_Position m \<and> Text m' = Text m \<and>
         PowerState m' = PowerState m \<and> bus_rx m' = bus_rx m"
  using confirm_Some [of "m\<lparr>State := HD44780_BUSY, bus_tx := bus_tx m @ command_frame c\<rparr>" m'] assms
  by (simp add: HD44780_Send_Command_def Send_Command_body_eq)

lemma Send_Data_Some:
  assumes "HD44780_Send_Data m c True = Some m'"
  shows "ready_within 20 m \<and> State m' = HD44780_READY \<and>
         (\<exists>n. 0 < n \<and> n \<le> 20 \<and>
              bus_tx m' = bus_tx m @ data_frame c @ concat (replicate n status_frame) \<and>
              rx_count m' = rx_count m + 2 * n) \<and>
         Cursor_Position m' = Cursor_Position m \<and> Text m' = Text m \<and>
         PowerState m' = PowerState m \<and> bus_rx m' = bus_rx m"
  using confirm_Some [of "m\<lparr>State := HD44780_BUSY, bus_tx := bus_tx m @ data_frame c\<rparr>" m'] assms
  by (simp add: HD44780_Send_Data_def Send_Data_body_eq)

lemma control_bits_of_frames:
  "map (\<lambda>b. b AND 0x0F) (command_frame c) = [0x0C, 0x08, 0x0C, 0x08]"
  "map (\<lambda>b. b AND 0xF0) (command_frame c) =
     [c AND 0xF0, c AND 0xF0, push_bit 4 c AND 0xF0, push_bit 4 c AND 0xF0]"
  "map (\<lambda>b. b AND 0x0F) (data_frame c) = [0x09, 0x0D, 0x09, 0x0D, 0x09]"
  "map (\<lambda>b. b AND 0xF0) (data_frame c) =
     [0, c AND 0xF0, c AND 0xF0, push_bit 4 c AND 0xF0, push_bit 4 c AND 0xF0]"
  by (simp_all add: command_frame_def data_frame_def bits8 bit_simps)

lemma backlight_of_frames:
  "list_all (\<lambda>b. bit b 3) (command_frame c)"
  "list_all (\<lambda>b. bit b 3) (data_frame c)"
  "list_all (\<lambda>b. bit b 3) status_frame"
  by (simp_all add: command_frame_def data_frame_def status_frame_def bit_simps)

lemma next_status_cong [simp]:
  "next_status (m\<lparr>State := s\<rparr>) = next_status m"
  "next_status (m\<lparr>bus_tx := t\<rparr>) = next_status m"
  "next_status (m\<lparr>Text := x\<rparr>) = next_status m"
  "next_status (m\<lparr>Cursor_Position := p\<rparr>) = next_status m"
  "next_status (m\<lparr>PowerState := q\<rparr>) = next_status m"
  by (simp_all add: next_status_def)

lemma confirm_first_ready:
  assumes "\<not> bit (bus_rx m (rx_count m)) 7"
  shows "confirm_busy_clear True m = Return (HD44780_Check_Status m)"
  using assms
  by (simp add: confirm_busy_clear_def busy_flag_loop.simps [of 0] Check_Status_State Let_def)

lemma Send_Command_first_ready:
  assumes "\<not> bit (bus_rx m (rx_count m)) 7"
  shows "HD44780_Send_Command m c True =
           Some (m\<lparr>State := HD44780_READY, AddressCounter := next_status m AND 0x7F,
                   bus_tx := bus_tx m @ command_frame c @ status_frame,
                   rx_count := rx_count m + 2\<rparr>)"
  using assms
  by (simp add: HD44780_Send_Command_def Send_Command_body_eq confirm_first_ready finish_def
      Check_Status_eq busy_bit_next_status)

lemma Send_Data_first_ready:
  assumes "\<not> bit (bus_rx m (rx_count m)) 7"
  shows "HD44780_Send_Data m c True =
           Some (m\<lparr>State := HD44780_READY, AddressCounter := next_status m AND 0x7F,
                   bus_tx := bus_tx m @ data_frame c @ status_frame,
                   rx_count := rx_count m + 2\<rparr>)"
  using assms
  by (simp add: HD44780_Send_Data_def Send_Data_body_eq confirm_first_ready finish_def
      Check_Status_eq busy_bit_next_status)

lemma confirm_bus:
  "\<exists>n. n \<le> 20 \<and>
       bus_tx (machine_of (confirm_busy_clear True m)) = bus_tx m @ concat (replicate n status_frame)"
proof -
  obtain b m' where r: "busy_flag_loop 0 m = (b, m')" by fastforce
  from busy_flag_loop_bus [OF r] obtain n where
    "n \<le> 20" "bus_tx m' = bus_tx m @ concat (replicate n status_frame)" by auto
  with r show ?thesis
    by (cases b) (auto simp: confirm_busy_clear_def machine_of_def)
qed

section \<open>Framing\<close>

text \<open>
  C3, as amended. Without busy confirmation \<^verbatim>\<open>HD44780_Send_Command\<close> returns after
  exactly four bus writes: the high nibble of the payload with backlight and enable
  (control bits 0x0C), the high nibble with backlight alone (0x08), the low nibble with
  backlight and enable, the low nibble with backlight alone. \<^verbatim>\<open>HD44780_Send_Data\<close>
  returns after exactly five: first a write of backlight and register-select alone
  (0x09, no nibble, enable released), then the same four with register-select added
  (0x0D, 0x09, 0x0D, 0x09). With busy confirmation the same four or five writes come
  first, and what follows them, up to the return or the call of the error handler, are
  at most twenty status reads. Every one of these bytes has bit 3, the backlight bit,
  set.
\<close>

theorem C3_framing:
  "(\<exists>m'. HD44780_Send_Command m c False = Some m' \<and> sent m m' = command_frame c) \<and>
   (\<exists>m'. HD44780_Send_Data m c False = Some m' \<and> sent m m' = data_frame c) \<and>
   (\<exists>n. n \<le> 20 \<and>
        sent m (machine_of (HD44780_Send_Command_body m c True)) =
          command_frame c @ concat (replicate n status_frame)) \<and>
   (\<exists>n. n \<le> 20 \<and>
        sent m (machine_of (HD44780_Send_Data_body m c True)) =
          data_frame c @ concat (replicate n status_frame)) \<and>
   length (command_frame c) = 4 \<and> length (data_frame c) = 5 \<and>
   map (\<lambda>b. b AND 0xF0) (command_frame c) =
     [c AND 0xF0, c AND 0xF0, push_bit 4 c AND 0xF0, push_bit 4 c AND 0xF0] \<and>
   map (\<lambda>b. b AND 0x0F) (command_frame c) = [0x0C, 0x08, 0x0C, 0x08] \<and>
   map (\<lambda>b. b AND 0xF0) (data_frame c) =
     [0, c AND 0xF0, c AND 0xF0, push_bit 4 c AND 0xF0, push_bit 4 c AND 0xF0] \<and>
   map (\<lambda>b. b AND 0x0F) (data_frame c) = [0x09, 0x0D, 0x09, 0x0D, 0x09] \<and>
   list_all (\<lambda>b. bit b 3) (command_frame c) \<and> list_all (\<lambda>b. bit b 3) (data_frame c) \<and>
   list_all (\<lambda>b. bit b 3) status_frame"
proof -
  from confirm_bus [of "m\<lparr>State := HD44780_BUSY, bus_tx := bus_tx m @ command_frame c\<rparr>"]
  have "\<exists>n. n \<le> 20 \<and>
        sent m (machine_of (HD44780_Send_Command_body m c True)) =
          command_frame c @ concat (replicate n status_frame)"
    by (auto simp: Send_Command_body_eq sent_def)
  moreover
  from confirm_bus [of "m\<lparr>State := HD44780_BUSY, bus_tx := bus_tx m @ data_frame c\<rparr>"]
  have "\<exists>n. n \<le> 20 \<and>
        sent m (machine_of (HD44780_Send_Data_body m c True)) =
          data_frame c @ concat (replicate n status_frame)"
    by (auto simp: Send_Data_body_eq sent_def)
  moreover have "length (command_frame c) = 4" "length (data_frame c) = 5"
    by (simp_all add: command_frame_def data_frame_def)
  ultimately show ?thesis
    by (simp add: Send_Command_unchecked Send_Data_unchecked sent_def control_bits_of_frames
        backlight_of_frames)
qed

text \<open>
  The claim as written fails for a data byte: sending the character 0x41 with busy
  confirmation, to a display that answers Ready at once, puts five bytes on the bus
  before the status read, not four, and the first of them carries no nibble and has the
  enable bit clear.
\<close>

theorem C3_counterexample:
  "(\<exists>m'. HD44780_Send_Data (example_machine 0 0) 0x41 True = Some m' \<and>
         sent (example_machine 0 0) m' = [0x09, 0x4D, 0x49, 0x1D, 0x19] @ status_frame) \<and>
   \<not> (\<exists>m' n. HD44780_Send_Data (example_machine 0 0) 0x41 True = Some m' \<and>
         sent (example_machine 0 0) m' = [0x4D, 0x49, 0x1D, 0x19] @ concat (replicate n status_frame))"
proof -
  have "\<not> bit (bus_rx (example_machine 0 0) (rx_count (example_machine 0 0))) 7"
    by (simp add: example_machine_def)
  from Send_Data_first_ready [OF this, of "0x41"] show ?thesis
    by (simp add: data_frame_def sent_def)
qed

section \<open>Timeout\<close>

text \<open>
  C4. When none of the twenty status reads after the frame finds the busy flag clear,
  the statements of \<^verbatim>\<open>HD44780_Send_Command\<close> and of \<^verbatim>\<open>HD44780_Send_Data\<close> end in the
  one call of \<^verbatim>\<open>HD44780_Error_Handler\<close>, entered with the state Timeout after the frame
  and twenty status reads went over the bus; the call is the whole rest of the function,
  and the handler as shipped never returns from a state other than Ready, so neither
  function returns and nothing sets the state back to Ready.
\<close>

theorem C4_timeout:
  assumes "\<not> ready_within 20 m"
  shows
    "(\<exists>mt. HD44780_Send_Command_body m c True = Call_Error_Handler mt \<and>
           State mt = HD44780_TIMEOUT \<and>
           sent m mt = command_frame c @ concat (replicate 20 status_frame) \<and>
           HD44780_Send_Command m c True = HD44780_Error_Handler mt \<and>
           HD44780_Error_Handler mt = None) \<and>
     (\<exists>mt. HD44780_Send_Data_body m c True = Call_Error_Handler mt \<and>
           State mt = HD44780_TIMEOUT \<and>
           sent m mt = data_frame c @ concat (replicate 20 status_frame) \<and>
           HD44780_Send_Data m c True = HD44780_Error_Handler mt \<and>
           HD44780_Error_Handler mt = None)"
proof -
  let ?mc = "m\<lparr>State := HD44780_BUSY, bus_tx := bus_tx m @ command_frame c\<rparr>"
  let ?md = "m\<lparr>State := HD44780_BUSY, bus_tx := bus_tx m @ data_frame c\<rparr>"
  from assms have "\<not> ready_within 20 ?mc" "\<not> ready_within 20 ?md" by simp_all
  from confirm_timeout [OF this(1)] obtain mc where mc:
    "confirm_busy_clear True ?mc = Call_Error_Handler mc" "State mc = HD44780_TIMEOUT"
    "bus_tx mc = bus_tx ?mc @ concat (replicate 20 status_frame)" by blast
  from confirm_timeout [OF \<open>\<not> ready_within 20 ?md\<close>] obtain md where md:
    "confirm_busy_clear True ?md = Call_Error_Handler md" "State md = HD44780_TIMEOUT"
    "bus_tx md = bus_tx ?md @ concat (replicate 20 status_frame)" by blast
  have "HD44780_Send_Command_body m c True = Call_Error_Handler mc \<and>
        State mc = HD44780_TIMEOUT \<and>
        sent m mc = command_frame c @ concat (replicate 20 status_frame) \<and>
        HD44780_Send_Command m c True = HD44780_Error_Handler mc \<and>
        HD44780_Error_Handler mc = None"
    using mc by (simp add: HD44780_Send_Command_def Send_Command_body_eq sent_def finish_def
        Error_Handler_eq)
  moreover have "HD44780_Send_Data_body m c True = Call_Error_Handler md \<and>
        State md = HD44780_TIMEOUT \<and>
        sent m md = data_frame c @ concat (replicate 20 status_frame) \<and>
        HD44780_Send_Data m c True = HD44780_Error_Handler md \<and>
        HD44780_Error_Handler md = None"
    using md by (simp add: HD44780_Send_Data_def Send_Data_body_eq sent_def finish_def
        Error_Handler_eq)
  ultimately show ?thesis by blast
qed

lemma example_machine_busy: "\<not> ready_within 20 (example_machine 20 a)"
  by (auto simp: ready_within_def example_machine_def)

theorem C4_timeout_witness:
  "HD44780_Send_Command (example_machine 20 0) 0x01 True = None \<and>
   HD44780_Send_Data (example_machine 20 0) 0x41 True = None"
  using C4_timeout [OF example_machine_busy, of 0 "0x01"] C4_timeout [OF example_machine_busy, of 0 "0x41"]
  by auto

section \<open>What the display latches\<close>

lemma nibbles_Nil [simp]: "command_nibbles [] = []" "data_nibbles [] = []"
  by (simp_all add: command_nibbles_def data_nibbles_def)

lemma command_nibbles_append [simp]:
  "command_nibbles (xs @ ys) = command_nibbles xs @ command_nibbles ys"
  by (simp add: command_nibbles_def)

lemma data_nibbles_append [simp]:
  "data_nibbles (xs @ ys) = data_nibbles xs @ data_nibbles ys"
  by (simp add: data_nibbles_def)

lemma nibbles_status_frame [simp]:
  "command_nibbles status_frame = []" "data_nibbles status_frame = []"
  by (simp_all add: command_nibbles_def data_nibbles_def status_frame_def)

lemma nibbles_status_frames [simp]:
  "command_nibbles (concat (replicate n status_frame)) = []"
  "data_nibbles (concat (replicate n status_frame)) = []"
  by (induction n) simp_all

lemma low3_frames:
  "(0xF0 AND c OR 0x0C) AND 7 = (4::u8)" "(0xF0 AND c OR 0x08) AND 7 = (0::u8)"
  "(0xF0 AND c OR 0x0D) AND 7 = (5::u8)" "(0xF0 AND c OR 0x09) AND 7 = (1::u8)"
  "(0xF0 AND c OR 0x0C) AND 0xF0 = c AND (0xF0::u8)"
  "(0xF0 AND c OR 0x0D) AND 0xF0 = c AND (0xF0::u8)"
  by (simp_all add: bits8 bit_simps)

lemma nibbles_command_frame [simp]:
  "command_nibbles (command_frame c) = nibbles_of c" "data_nibbles (command_frame c) = []"
  by (simp_all add: command_nibbles_def data_nibbles_def command_frame_def nibbles_of_def
      low3_frames)

lemma nibbles_data_frame [simp]:
  "data_nibbles (data_frame c) = nibbles_of c" "command_nibbles (data_frame c) = []"
  by (simp_all add: command_nibbles_def data_nibbles_def data_frame_def nibbles_of_def
      low3_frames)

lemma join_nibbles: "(c AND 0xF0) OR drop_bit 4 (push_bit 4 c AND 0xF0) = (c::u8)"
  by (simp add: bits8 bit_simps)

lemma last_command_frame:
  "command_nibbles zs = [] \<Longrightarrow> last_command (xs @ command_frame c @ zs) = c"
  by (simp add: last_command_def Let_def nibbles_of_def nth_append) (simp add: bits8 bit_simps)

lemma column_cases:
  assumes "unat (c::u8) < 16"
  shows "c \<in> {0, 1, 2, 3, 4, 5, 6, 7, 8, 9, 10, 11, 12, 13, 14, 15}"
proof -
  from assms have "unat c \<in> {0, 1, 2, 3, 4, 5, 6, 7, 8, 9, 10, 11, 12, 13, 14, 15}"
    by simp arith
  then have "word_of_nat (unat c)
      \<in> (word_of_nat :: nat \<Rightarrow> u8) ` {0, 1, 2, 3, 4, 5, 6, 7, 8, 9, 10, 11, 12, 13, 14, 15}"
    by (rule imageI)
  then show ?thesis by simp
qed

lemma row_cases:
  assumes "unat (r::u8) < 2"
  shows "r = 0 \<or> r = 1"
proof -
  from assms have "unat r \<in> {0, 1}" by simp arith
  then have "word_of_nat (unat r) \<in> (word_of_nat :: nat \<Rightarrow> u8) ` {0, 1}"
    by (rule imageI)
  then show ?thesis by simp
qed

lemma ddram_row0:
  "unat (c::u8) < 16 \<Longrightarrow> (0x80 OR c) AND 0x7F = c \<and> c < 40"
  by (drule column_cases) auto

lemma ddram_row1:
  "unat (c::u8) < 16 \<Longrightarrow>
     (0x80 OR 0x40 OR c) AND 0x7F = 0x40 OR c \<and> \<not> (0x40 OR c) < 40 \<and> (0x40 OR c) - 64 = c"
  by (drule column_cases) auto

section \<open>Setting the cursor\<close>

lemma Set_Cursor_Position_in_range:
  assumes "unat row < HD44780_NUM_ROWS" "unat column < HD44780_NUM_COLS"
  shows "HD44780_Set_Cursor_Position m row column =
           HD44780_Send_Command m (if row = 0 then 0x80 OR column else 0x80 OR 0x40 OR column) True"
  using assms by (simp add: HD44780_Set_Cursor_Position_def)

lemma sent_append [simp]: "sent m (m'\<lparr>bus_tx := bus_tx m @ xs\<rparr>) = xs"
  by (simp add: sent_def)

lemma sent_eq: "bus_tx m' = bus_tx m @ xs \<Longrightarrow> sent m m' = xs"
  by (simp add: sent_def)

text \<open>
  C9. With a row of 2 or more, or a column of 16 or more,
  \<^verbatim>\<open>HD44780_Set_Cursor_Position\<close> returns the machine it was given: no byte goes over the
  bus and no field changes. \<^verbatim>\<open>HD44780_Read_Character\<close> returns the null character; it
  is a function of the handle alone and has no access to the bus.
\<close>

theorem C9_out_of_range:
  assumes "unat row \<ge> HD44780_NUM_ROWS \<or> unat column \<ge> HD44780_NUM_COLS"
  shows "HD44780_Set_Cursor_Position m row column = Some m \<and>
         HD44780_Read_Character m row column = 0"
  using assms by (auto simp: HD44780_Set_Cursor_Position_def HD44780_Read_Character_def)

theorem C9_out_of_range_witness:
  "HD44780_Set_Cursor_Position (example_machine 0 0) 2 0 = Some (example_machine 0 0) \<and>
   HD44780_Read_Character (example_machine 0 0) 2 0 = 0 \<and>
   HD44780_Set_Cursor_Position (example_machine 0 0) 0 16 = Some (example_machine 0 0) \<and>
   HD44780_Read_Character (example_machine 0 0) 0 16 = 0"
  using C9_out_of_range [of 2 0 "example_machine 0 0"] C9_out_of_range [of 0 16 "example_machine 0 0"]
  by (simp add: geometry)

text \<open>
  C2. For a row below 2 and a column below 16, \<^verbatim>\<open>HD44780_Set_Cursor_Position\<close> puts the
  instruction \<open>0x80 | column\<close> (row 0) or \<open>0x80 | 0x40 | column\<close> (row 1) on the bus. When
  the display then answers a status read with the busy flag clear and the address that
  this last instruction carries in its low seven bits, \<^verbatim>\<open>HD44780_Get_Cursor_Position\<close>
  translates the answer back to (row, column).
\<close>

theorem C2_set_cursor_round_trip:
  assumes "unat row < HD44780_NUM_ROWS" and "unat column < HD44780_NUM_COLS"
    and "HD44780_Set_Cursor_Position m row column = Some m1"
    and "next_status m1 = last_command (bus_tx m1) AND 0x7F"
  shows "last_command (bus_tx m1) = (if row = 0 then 0x80 OR column else 0x80 OR 0x40 OR column) \<and>
         command_nibbles (sent m m1) = nibbles_of (last_command (bus_tx m1)) \<and>
         data_nibbles (sent m m1) = [] \<and>
         Cursor_Position (HD44780_Get_Cursor_Position m1) = (row, column)"
proof -
  let ?c = "if row = 0 then 0x80 OR column else 0x80 OR 0x40 OR column"
  from assms(1-3) have "HD44780_Send_Command m ?c True = Some m1"
    by (simp add: Set_Cursor_Position_in_range)
  from Send_Command_Some [OF this] obtain n where
    tx: "bus_tx m1 = bus_tx m @ command_frame ?c @ concat (replicate n status_frame)"
    by blast
  have lc: "last_command (bus_tx m1) = ?c"
    unfolding tx by (rule last_command_frame) simp
  have st: "next_status m1 = ?c AND 0x7F"
    using assms(4) lc by simp
  from assms(1) have row: "row = 0 \<or> row = 1"
    by (simp add: geometry row_cases)
  from assms(2) have col: "unat column < 16" by (simp add: geometry)
  have "\<not> bit (next_status m1) 7" unfolding st by (simp add: bit_simps)
  then have "Cursor_Position (HD44780_Get_Cursor_Position m1) =
      (if ?c AND 0x7F < 40 then (0, ?c AND 0x7F) else (1, (?c AND 0x7F) - 64))"
    by (simp add: Get_Cursor_Position_cursor Check_Status_AddressCounter st Let_def)
  also have "\<dots> = (row, column)"
    using row ddram_row0 [OF col] ddram_row1 [OF col] by auto
  finally show ?thesis using lc tx by (simp add: sent_def)
qed

theorem C2_set_cursor_round_trip_witness:
  "\<exists>m1. HD44780_Set_Cursor_Position (example_machine 0 0x45) 1 5 = Some m1 \<and>
        next_status m1 = last_command (bus_tx m1) AND 0x7F \<and>
        last_command (bus_tx m1) = 0xC5 \<and>
        Cursor_Position (HD44780_Get_Cursor_Position m1) = (1, 5)"
proof -
  let ?m = "example_machine 0 0x45"
  let ?m1 = "?m\<lparr>State := HD44780_READY, AddressCounter := next_status ?m AND 0x7F,
                 bus_tx := bus_tx ?m @ command_frame 0xC5 @ status_frame,
                 rx_count := rx_count ?m + 2\<rparr>"
  have "\<not> bit (bus_rx ?m (rx_count ?m)) 7" by (simp add: example_machine_def)
  then have s: "HD44780_Set_Cursor_Position ?m 1 5 = Some ?m1"
    by (simp add: HD44780_Set_Cursor_Position_def geometry Send_Command_first_ready)
  have lc: "last_command (bus_tx ?m1) = 0xC5"
    using last_command_frame [of status_frame "bus_tx ?m" "0xC5"] by simp
  have n: "next_status ?m1 = last_command (bus_tx ?m1) AND 0x7F"
    unfolding lc by (simp add: next_status_def example_machine_def)
  from C2_set_cursor_round_trip [OF _ _ s n] lc
  have "Cursor_Position (HD44780_Get_Cursor_Position ?m1) = (1, 5)"
    by (simp add: geometry)
  with s n lc show ?thesis by blast
qed

section \<open>Predefined commands\<close>

lemma clear_fold_length:
  "length (fold (\<lambda>i t. t[i := (0::u8)]) [0 ..< n] t) = length t"
  by (induction n) simp_all

lemma clear_fold_nth:
  "k < length t \<Longrightarrow>
     fold (\<lambda>i t. t[i := (0::u8)]) [0 ..< n] t ! k = (if k < n then 0 else t ! k)"
  by (induction n) (auto simp: nth_list_update clear_fold_length less_Suc_eq)

lemma Clear_Text_Buffer_fold:
  "fold (\<lambda>i m'. m'\<lparr>Text := (Text m')[i := 0]\<rparr>) [0 ..< n] m =
     m\<lparr>Text := fold (\<lambda>i t. t[i := 0]) [0 ..< n] (Text m)\<rparr>"
  by (induction n) simp_all

lemma Clear_Text_Buffer_eq:
  assumes "length (Text m) = HD44780_NUM_ELEMENTS"
  shows "Clear_Text_Buffer m = m\<lparr>Text := replicate HD44780_NUM_ELEMENTS 0\<rparr>"
proof -
  have "fold (\<lambda>i t. t[i := 0]) [0 ..< HD44780_NUM_ELEMENTS] (Text m)
          = replicate HD44780_NUM_ELEMENTS 0"
    using assms by (intro nth_equalityI) (simp_all add: clear_fold_length clear_fold_nth)
  then show ?thesis by (simp add: Clear_Text_Buffer_def Clear_Text_Buffer_fold)
qed

lemma Clear_Text_Buffer_fields [simp]:
  "Cursor_Position (Clear_Text_Buffer m) = Cursor_Position m"
  "PowerState (Clear_Text_Buffer m) = PowerState m"
  "State (Clear_Text_Buffer m) = State m"
  "bus_tx (Clear_Text_Buffer m) = bus_tx m"
  "bus_rx (Clear_Text_Buffer m) = bus_rx m"
  "rx_count (Clear_Text_Buffer m) = rx_count m"
  "AddressCounter (Clear_Text_Buffer m) = AddressCounter m"
  by (simp_all add: Clear_Text_Buffer_def Clear_Text_Buffer_fold)

lemma Transmit_Command_framed:
  assumes "PowerState m = LCD1602_ON" and "UserCommand \<noteq> DISPLAY_ON" and "UserCommand \<noteq> DISPLAY_OFF"
  shows "HD44780_Transmit_Command m UserCommand =
    (case HD44780_Send_Command m (Command_of UserCommand) True of
       None \<Rightarrow> None
     | Some m1 \<Rightarrow>
         Some (if UserCommand = CLEAR_DISPLAY
               then (Clear_Text_Buffer m1)\<lparr>Cursor_Position := (0, 0)\<rparr>
               else if UserCommand = RETURN_HOME then m1\<lparr>Cursor_Position := (0, 0)\<rparr>
               else m1))"
  using assms
  by (cases UserCommand) (simp_all add: HD44780_Transmit_Command_def Command_of_def split: option.splits)

lemma Transmit_Command_Some:
  assumes "PowerState m = LCD1602_ON" and "UserCommand \<noteq> DISPLAY_ON" and "UserCommand \<noteq> DISPLAY_OFF"
    and "HD44780_Transmit_Command m UserCommand = Some m'"
  shows "PowerState m' = LCD1602_ON \<and> State m' = HD44780_READY \<and>
         (\<exists>n. 0 < n \<and> n \<le> 20 \<and>
            sent m m' = command_frame (Command_of UserCommand) @ concat (replicate n status_frame)) \<and>
         (UserCommand \<noteq> CLEAR_DISPLAY \<longrightarrow> Text m' = Text m) \<and>
         (UserCommand \<noteq> CLEAR_DISPLAY \<longrightarrow> UserCommand \<noteq> RETURN_HOME \<longrightarrow>
            Cursor_Position m' = Cursor_Position m)"
proof -
  from assms obtain m1 where m1: "HD44780_Send_Command m (Command_of UserCommand) True = Some m1"
    by (auto simp: Transmit_Command_framed split: option.splits)
  from Send_Command_Some [OF m1] obtain n where n: "0 < n" "n \<le> 20"
    "bus_tx m1 = bus_tx m @ command_frame (Command_of UserCommand) @ concat (replicate n status_frame)"
    by blast
  have "sent m m' = command_frame (Command_of UserCommand) @ concat (replicate n status_frame)"
    using assms m1 n(3) by (auto simp: Transmit_Command_framed sent_def)
  with n(1,2) have "\<exists>n. 0 < n \<and> n \<le> 20 \<and>
            sent m m' = command_frame (Command_of UserCommand) @ concat (replicate n status_frame)"
    by blast
  then show ?thesis
    using assms m1 Send_Command_Some [OF m1] by (auto simp: Transmit_Command_framed)
qed

lemma Transmit_Command_returns:
  assumes "PowerState m = LCD1602_ON" and "UserCommand \<noteq> DISPLAY_ON" and "UserCommand \<noteq> DISPLAY_OFF"
  shows "(\<exists>m'. HD44780_Transmit_Command m UserCommand = Some m') \<longleftrightarrow> ready_within 20 m"
proof
  assume "\<exists>m'. HD44780_Transmit_Command m UserCommand = Some m'"
  then obtain m1 where "HD44780_Send_Command m (Command_of UserCommand) True = Some m1"
    using assms by (auto simp: Transmit_Command_framed split: option.splits)
  from Send_Command_Some [OF this] show "ready_within 20 m" by simp
next
  assume "ready_within 20 m"
  from Send_Command_returns [OF this, of "Command_of UserCommand"]
  show "\<exists>m'. HD44780_Transmit_Command m UserCommand = Some m'"
    using assms by (auto simp: Transmit_Command_framed)
qed

lemma Transmit_Command_raw:
  "PowerState m = LCD1602_ON \<Longrightarrow> HD44780_Transmit_Command m DISPLAY_ON = Some m"
  "PowerState m = LCD1602_ON \<Longrightarrow>
     HD44780_Transmit_Command m DISPLAY_OFF =
       Some (m\<lparr>PowerState := LCD1602_OFF, bus_tx := bus_tx m @ [0x00]\<rparr>)"
  "PowerState m = LCD1602_OFF \<Longrightarrow>
     HD44780_Transmit_Command m DISPLAY_ON =
       Some (m\<lparr>PowerState := LCD1602_ON, bus_tx := bus_tx m @ [0x08]\<rparr>)"
  "PowerState m = LCD1602_OFF \<Longrightarrow> UserCommand \<noteq> DISPLAY_ON \<Longrightarrow>
     HD44780_Transmit_Command m UserCommand = Some m"
  by (cases UserCommand;
      simp add: HD44780_Transmit_Command_def HAL_I2C_Master_Transmit_def HD44780_BACKLIGHT_def)+

text \<open>
  C5. With the display on, \<^verbatim>\<open>DISPLAY_ON\<close> changes nothing; \<^verbatim>\<open>DISPLAY_OFF\<close> puts the one
  byte 0x00 (backlight bit clear) on the bus and sets the power state to Off; every
  other command is framed as an instruction with busy confirmation, so it does not leave
  the machine as it was, it returns exactly when the display answers Ready within twenty
  status reads, and it leaves the power state On. With the display off, \<^verbatim>\<open>DISPLAY_ON\<close>
  puts the one byte 0x08 (backlight bit set) on the bus and sets the power state to On;
  every other command, \<^verbatim>\<open>DISPLAY_OFF\<close> among them, returns the machine it was given.
  Turning the display off and on again gives back the machine it started from, but for
  the two bytes on the bus.
\<close>

theorem C5_power_state_dispatch:
  "(PowerState m = LCD1602_ON \<longrightarrow>
      HD44780_Transmit_Command m DISPLAY_ON = Some m \<and>
      HD44780_Transmit_Command m DISPLAY_OFF =
        Some (m\<lparr>PowerState := LCD1602_OFF, bus_tx := bus_tx m @ [0x00]\<rparr>) \<and>
      (\<exists>m2. HD44780_Transmit_Command
               (m\<lparr>PowerState := LCD1602_OFF, bus_tx := bus_tx m @ [0x00]\<rparr>) DISPLAY_ON = Some m2 \<and>
            m2 = m\<lparr>bus_tx := bus_tx m @ [0x00, 0x08]\<rparr>) \<and>
      (UserCommand \<noteq> DISPLAY_ON \<longrightarrow> UserCommand \<noteq> DISPLAY_OFF \<longrightarrow>
         HD44780_Transmit_Command m UserCommand \<noteq> Some m \<and>
         ((\<exists>m'. HD44780_Transmit_Command m UserCommand = Some m') \<longleftrightarrow> ready_within 20 m) \<and>
         (\<forall>m'. HD44780_Transmit_Command m UserCommand = Some m' \<longrightarrow>
            PowerState m' = LCD1602_ON \<and>
            command_nibbles (sent m m') = nibbles_of (Command_of UserCommand) \<and>
            data_nibbles (sent m m') = []))) \<and>
   (PowerState m = LCD1602_OFF \<longrightarrow>
      HD44780_Transmit_Command m DISPLAY_ON =
        Some (m\<lparr>PowerState := LCD1602_ON, bus_tx := bus_tx m @ [0x08]\<rparr>) \<and>
      (UserCommand \<noteq> DISPLAY_ON \<longrightarrow> HD44780_Transmit_Command m UserCommand = Some m)) \<and>
   \<not> bit (0x00 :: u8) 3 \<and> bit (0x08 :: u8) 3"
proof -
  have on: "HD44780_Transmit_Command m UserCommand \<noteq> Some m \<and>
         ((\<exists>m'. HD44780_Transmit_Command m UserCommand = Some m') \<longleftrightarrow> ready_within 20 m) \<and>
         (\<forall>m'. HD44780_Transmit_Command m UserCommand = Some m' \<longrightarrow>
            PowerState m' = LCD1602_ON \<and>
            command_nibbles (sent m m') = nibbles_of (Command_of UserCommand) \<and>
            data_nibbles (sent m m') = [])"
    if h: "PowerState m = LCD1602_ON" "UserCommand \<noteq> DISPLAY_ON" "UserCommand \<noteq> DISPLAY_OFF"
  proof (intro conjI allI impI)
    show "HD44780_Transmit_Command m UserCommand \<noteq> Some m"
    proof
      assume "HD44780_Transmit_Command m UserCommand = Some m"
      from Transmit_Command_Some [OF h this] show False
        by (auto simp: sent_def command_frame_def)
    qed
    show "(\<exists>m'. HD44780_Transmit_Command m UserCommand = Some m') \<longleftrightarrow> ready_within 20 m"
      by (rule Transmit_Command_returns [OF h])
  next
    fix m' assume "HD44780_Transmit_Command m UserCommand = Some m'"
    from Transmit_Command_Some [OF h this]
    show "PowerState m' = LCD1602_ON"
      "command_nibbles (sent m m') = nibbles_of (Command_of UserCommand)"
      "data_nibbles (sent m m') = []"
      by auto
  qed
  have off_on: "\<exists>m2. HD44780_Transmit_Command
               (m\<lparr>PowerState := LCD1602_OFF, bus_tx := bus_tx m @ [0x00]\<rparr>) DISPLAY_ON = Some m2 \<and>
            m2 = m\<lparr>bus_tx := bus_tx m @ [0x00, 0x08]\<rparr>"
    if "PowerState m = LCD1602_ON"
    using that by (simp add: Transmit_Command_raw(3))
  show ?thesis
    using on off_on by (simp add: Transmit_Command_raw)
qed

theorem C5_power_state_dispatch_witness:
  "HD44780_Transmit_Command (example_machine 0 0) DISPLAY_OFF =
     Some ((example_machine 0 0)\<lparr>PowerState := LCD1602_OFF, bus_tx := [0x00]\<rparr>) \<and>
   HD44780_Transmit_Command (example_machine 0 0) DISPLAY_ON = Some (example_machine 0 0) \<and>
   HD44780_Transmit_Command (example_machine 0 0) CURSOR_BLINK \<noteq> Some (example_machine 0 0) \<and>
   (\<exists>m'. HD44780_Transmit_Command (example_machine 0 0) CURSOR_BLINK = Some m') \<and>
   HD44780_Transmit_Command ((example_machine 0 0)\<lparr>PowerState := LCD1602_OFF\<rparr>) DISPLAY_OFF =
     Some ((example_machine 0 0)\<lparr>PowerState := LCD1602_OFF\<rparr>) \<and>
   HD44780_Transmit_Command ((example_machine 0 0)\<lparr>PowerState := LCD1602_OFF\<rparr>) DISPLAY_ON =
     Some ((example_machine 0 0)\<lparr>PowerState := LCD1602_ON, bus_tx := [0x08]\<rparr>)"
proof -
  have on: "PowerState (example_machine 0 0) = LCD1602_ON"
    and tx: "bus_tx (example_machine 0 0) = []"
    by (simp_all add: example_machine_def)
  have rw: "ready_within 20 (example_machine 0 0)"
    unfolding ready_within_def by (rule bexI [of _ 0]) (simp_all add: example_machine_def)
  show ?thesis
    using C5_power_state_dispatch [of "example_machine 0 0" CURSOR_BLINK]
      C5_power_state_dispatch [of "(example_machine 0 0)\<lparr>PowerState := LCD1602_OFF\<rparr>" DISPLAY_OFF]
      on tx rw
    by simp
qed

lemma Read_Character_in_range:
  assumes "unat row < HD44780_NUM_ROWS" and "unat column < HD44780_NUM_COLS"
  shows "HD44780_Read_Character m row column = Text m ! (unat row * HD44780_NUM_COLS + unat column)"
proof -
  from assms have "unat row * HD44780_NUM_COLS + unat column < 256"
    by (simp add: geometry)
  then have "unat (word_of_nat (unat row * HD44780_NUM_COLS + unat column) :: u8)
               = unat row * HD44780_NUM_COLS + unat column"
    by (intro of_nat_inverse [OF refl]) simp
  with assms show ?thesis
    by (simp add: HD44780_Read_Character_def Let_def)
qed

text \<open>
  C8. With the display on and a text array of 32 entries, \<^verbatim>\<open>CLEAR_DISPLAY\<close> returns
  exactly when the display answers Ready within twenty status reads, having sent the
  instruction 0x01; on return all 32 entries of the text array are the null character
  and the cached cursor position is (0, 0), so \<^verbatim>\<open>HD44780_Read_Character\<close> returns null
  at every coordinate and the row and column index both read 0.
\<close>

theorem C8_clear_display:
  assumes "PowerState m = LCD1602_ON" and "length (Text m) = HD44780_NUM_ELEMENTS"
  shows "((\<exists>m'. HD44780_Transmit_Command m CLEAR_DISPLAY = Some m') \<longleftrightarrow> ready_within 20 m) \<and>
         (\<forall>m'. HD44780_Transmit_Command m CLEAR_DISPLAY = Some m' \<longrightarrow>
            command_nibbles (sent m m') = nibbles_of 0x01 \<and>
            Text m' = replicate (HD44780_NUM_ROWS * HD44780_NUM_COLS) 0 \<and>
            Cursor_Position m' = (0, 0) \<and>
            (\<forall>row column. HD44780_Read_Character m' row column = 0) \<and>
            HD44780_Get_Row_Index m' = 0 \<and> HD44780_Get_Column_Index m' = 0)"
proof (intro conjI allI impI)
  show "(\<exists>m'. HD44780_Transmit_Command m CLEAR_DISPLAY = Some m') \<longleftrightarrow> ready_within 20 m"
    using assms(1) by (simp add: Transmit_Command_returns)
next
  fix m' assume r: "HD44780_Transmit_Command m CLEAR_DISPLAY = Some m'"
  with assms(1) obtain m1 where m1: "HD44780_Send_Command m 0x01 True = Some m1"
    and m': "m' = (Clear_Text_Buffer m1)\<lparr>Cursor_Position := (0, 0)\<rparr>"
    by (auto simp: Transmit_Command_framed Command_of_def split: option.splits)
  from Send_Command_Some [OF m1] assms(2) have "length (Text m1) = HD44780_NUM_ELEMENTS"
    by simp
  then have t: "Text m' = replicate (HD44780_NUM_ROWS * HD44780_NUM_COLS) 0"
    by (simp add: m' Clear_Text_Buffer_eq HD44780_NUM_ELEMENTS_def)
  show "Text m' = replicate (HD44780_NUM_ROWS * HD44780_NUM_COLS) 0" by (rule t)
  show "Cursor_Position m' = (0, 0)" by (simp add: m')
  show "HD44780_Get_Row_Index m' = 0" "HD44780_Get_Column_Index m' = 0"
    by (simp_all add: m' HD44780_Get_Row_Index_def HD44780_Get_Column_Index_def)
  from Transmit_Command_Some [OF assms(1) _ _ r]
  show "command_nibbles (sent m m') = nibbles_of 0x01"
    by (auto simp: Command_of_def)
  fix row column
  show "HD44780_Read_Character m' row column = 0"
  proof (cases "unat row < HD44780_NUM_ROWS \<and> unat column < HD44780_NUM_COLS")
    case True
    then have "unat row * HD44780_NUM_COLS + unat column < HD44780_NUM_ROWS * HD44780_NUM_COLS"
      by (simp add: geometry)
    with True show ?thesis
      by (simp add: Read_Character_in_range t)
  next
    case False
    then show ?thesis by (auto simp: HD44780_Read_Character_def)
  qed
qed

theorem C8_clear_display_witness:
  "\<exists>m'. HD44780_Transmit_Command
          ((example_machine 0 0)\<lparr>Text := replicate 32 0x41, Cursor_Position := (1, 3)\<rparr>)
          CLEAR_DISPLAY = Some m' \<and>
        Text m' = replicate 32 0 \<and> Cursor_Position m' = (0, 0) \<and>
        HD44780_Read_Character m' 1 3 = 0"
proof -
  let ?m = "(example_machine 0 0)\<lparr>Text := replicate 32 0x41, Cursor_Position := (1, 3)\<rparr>"
  have on: "PowerState ?m = LCD1602_ON" and len: "length (Text ?m) = HD44780_NUM_ELEMENTS"
    by (simp_all add: example_machine_def geometry)
  have rw: "ready_within 20 ?m"
    unfolding ready_within_def by (rule bexI [of _ 0]) (simp_all add: example_machine_def)
  from C8_clear_display [OF on len] rw show ?thesis
    by (auto simp: geometry)
qed

lemma shift_loop_cursor:
  "shift_loop n m = Some m' \<Longrightarrow> Cursor_Position m' = Cursor_Position m"
  by (induction n arbitrary: m) (simp_all add: Send_Command_unchecked)

lemma Animate_Text_cursor:
  "HD44780_Animate_Text m n = Some m' \<Longrightarrow> Cursor_Position m' = Cursor_Position m"
  unfolding HD44780_Animate_Text_def Let_def
  by (cases "\<exists>i\<in>set [0..<HD44780_NUM_ELEMENTS]. Text m ! i \<noteq> 0")
    (simp_all only: if_True if_False option.inject shift_loop_cursor)

lemma Transmit_Command_cursor:
  assumes "UserCommand \<noteq> CLEAR_DISPLAY" and "UserCommand \<noteq> RETURN_HOME"
    and "HD44780_Transmit_Command m UserCommand = Some m'"
  shows "Cursor_Position m' = Cursor_Position m"
proof (cases "PowerState m")
  case LCD1602_ON
  show ?thesis
  proof (cases "UserCommand = DISPLAY_ON \<or> UserCommand = DISPLAY_OFF")
    case True
    with LCD1602_ON assms(3) show ?thesis by (auto simp: Transmit_Command_raw)
  next
    case False
    with Transmit_Command_Some [OF LCD1602_ON _ _ assms(3)] assms(1,2) show ?thesis by simp
  qed
next
  case LCD1602_OFF
  with assms(3) show ?thesis
    by (cases "UserCommand = DISPLAY_ON") (auto simp: Transmit_Command_raw)
qed

text \<open>
  C10. For a row below 2 and a column below 16, \<^verbatim>\<open>HD44780_Set_Cursor_Position\<close> returns
  exactly when the display answers Ready within twenty status reads; it has then sent
  the instruction for the address, and the cached cursor position, the text array and
  the power state are the ones from before the call, so the row and column index read
  as before. The other calls that leave the cached cursor position alone are
  \<^verbatim>\<open>HD44780_Transmit_Command\<close> with a command other than \<^verbatim>\<open>CLEAR_DISPLAY\<close> and
  \<^verbatim>\<open>RETURN_HOME\<close>, and \<^verbatim>\<open>HD44780_Animate_Text\<close>.
\<close>

theorem C10_set_cursor_keeps_cache:
  assumes "unat row < HD44780_NUM_ROWS" and "unat column < HD44780_NUM_COLS"
  shows "((\<exists>m'. HD44780_Set_Cursor_Position m row column = Some m') \<longleftrightarrow> ready_within 20 m) \<and>
         (\<forall>m'. HD44780_Set_Cursor_Position m row column = Some m' \<longrightarrow>
            command_nibbles (sent m m') =
              nibbles_of (if row = 0 then 0x80 OR column else 0x80 OR 0x40 OR column) \<and>
            Cursor_Position m' = Cursor_Position m \<and> Text m' = Text m \<and>
            PowerState m' = PowerState m \<and>
            HD44780_Get_Row_Index m' = HD44780_Get_Row_Index m \<and>
            HD44780_Get_Column_Index m' = HD44780_Get_Column_Index m) \<and>
         (\<forall>UserCommand m'. UserCommand \<noteq> CLEAR_DISPLAY \<longrightarrow> UserCommand \<noteq> RETURN_HOME \<longrightarrow>
            HD44780_Transmit_Command m UserCommand = Some m' \<longrightarrow>
            Cursor_Position m' = Cursor_Position m) \<and>
         (\<forall>NumberOfScrolls m'. HD44780_Animate_Text m NumberOfScrolls = Some m' \<longrightarrow>
            Cursor_Position m' = Cursor_Position m)"
proof (intro conjI allI impI)
  let ?c = "if row = 0 then 0x80 OR column else 0x80 OR 0x40 OR column"
  show "(\<exists>m'. HD44780_Set_Cursor_Position m row column = Some m') \<longleftrightarrow> ready_within 20 m"
    unfolding Set_Cursor_Position_in_range [OF assms]
    using Send_Command_returns [of m ?c] Send_Command_Some [of m ?c] by blast
next
  fix m' assume "HD44780_Set_Cursor_Position m row column = Some m'"
  then have "HD44780_Send_Command m
      (if row = 0 then 0x80 OR column else 0x80 OR 0x40 OR column) True = Some m'"
    by (simp add: Set_Cursor_Position_in_range [OF assms])
  from Send_Command_Some [OF this]
  have "\<exists>n. sent m m' = command_frame (if row = 0 then 0x80 OR column else 0x80 OR 0x40 OR column)
           @ concat (replicate n status_frame)"
    and f: "Cursor_Position m' = Cursor_Position m" "Text m' = Text m" "PowerState m' = PowerState m"
    by (auto simp: sent_def)
  then obtain n where "sent m m' = command_frame (if row = 0 then 0x80 OR column else 0x80 OR 0x40 OR column)
           @ concat (replicate n status_frame)" by blast
  with f
  show "command_nibbles (sent m m') =
          nibbles_of (if row = 0 then 0x80 OR column else 0x80 OR 0x40 OR column)"
    "Cursor_Position m' = Cursor_Position m" "Text m' = Text m" "PowerState m' = PowerState m"
    "HD44780_Get_Row_Index m' = HD44780_Get_Row_Index m"
    "HD44780_Get_Column_Index m' = HD44780_Get_Column_Index m"
    by (simp_all add: HD44780_Get_Row_Index_def HD44780_Get_Column_Index_def)
next
  fix UserCommand m'
  assume "UserCommand \<noteq> CLEAR_DISPLAY" "UserCommand \<noteq> RETURN_HOME"
    "HD44780_Transmit_Command m UserCommand = Some m'"
  then show "Cursor_Position m' = Cursor_Position m" by (rule Transmit_Command_cursor)
next
  fix NumberOfScrolls m'
  assume "HD44780_Animate_Text m NumberOfScrolls = Some m'"
  then show "Cursor_Position m' = Cursor_Position m" by (rule Animate_Text_cursor)
qed

theorem C10_set_cursor_keeps_cache_witness:
  "\<exists>m'. HD44780_Set_Cursor_Position (example_machine 0 0x45) 1 5 = Some m' \<and>
        HD44780_Get_Row_Index m' = 0 \<and> HD44780_Get_Column_Index m' = 0 \<and>
        Text m' = replicate 32 0 \<and> PowerState m' = LCD1602_ON \<and>
        command_nibbles (sent (example_machine 0 0x45) m') = [0xC0, 0x50]"
proof -
  let ?m = "example_machine 0 0x45"
  have rw: "ready_within 20 ?m"
    unfolding ready_within_def by (rule bexI [of _ 0]) (simp_all add: example_machine_def)
  have "unat (1::u8) < HD44780_NUM_ROWS" "unat (5::u8) < HD44780_NUM_COLS"
    by (simp_all add: geometry)
  from C10_set_cursor_keeps_cache [OF this, of ?m] rw
  obtain m' where s: "HD44780_Set_Cursor_Position ?m 1 5 = Some m'" by blast
  with C10_set_cursor_keeps_cache [OF \<open>unat (1::u8) < HD44780_NUM_ROWS\<close>
      \<open>unat (5::u8) < HD44780_NUM_COLS\<close>, of ?m]
  have "command_nibbles (sent ?m m') = nibbles_of (0x80 OR 0x40 OR 5)"
    "Text m' = Text ?m" "PowerState m' = PowerState ?m"
    "HD44780_Get_Row_Index m' = HD44780_Get_Row_Index ?m"
    "HD44780_Get_Column_Index m' = HD44780_Get_Column_Index ?m"
    by simp_all
  then have "HD44780_Get_Row_Index m' = 0 \<and> HD44780_Get_Column_Index m' = 0 \<and>
        Text m' = replicate 32 0 \<and> PowerState m' = LCD1602_ON \<and>
        command_nibbles (sent ?m m') = [0xC0, 0x50]"
    by (simp add: nibbles_of_def HD44780_Get_Row_Index_def HD44780_Get_Column_Index_def
        example_machine_def)
  with s show ?thesis by blast
qed

section \<open>Printing\<close>

lemma strlen_le: "strlen str \<le> length str"
  by (simp add: strlen_def length_takeWhile_le)

lemma Set_Cursor_Position_Some:
  assumes "HD44780_Set_Cursor_Position m row column = Some m'"
    and "unat row < HD44780_NUM_ROWS" and "unat column < HD44780_NUM_COLS"
  shows "\<exists>n. bus_tx m' = bus_tx m
              @ command_frame (if row = 0 then 0x80 OR column else 0x80 OR 0x40 OR column)
              @ concat (replicate n status_frame)"
    and "Cursor_Position m' = Cursor_Position m" and "Text m' = Text m"
    and "PowerState m' = PowerState m" and "bus_rx m' = bus_rx m"
proof -
  from assms have "HD44780_Send_Command m
      (if row = 0 then 0x80 OR column else 0x80 OR 0x40 OR column) True = Some m'"
    by (simp add: Set_Cursor_Position_in_range)
  from Send_Command_Some [OF this]
  show "\<exists>n. bus_tx m' = bus_tx m
              @ command_frame (if row = 0 then 0x80 OR column else 0x80 OR 0x40 OR column)
              @ concat (replicate n status_frame)"
    and "Cursor_Position m' = Cursor_Position m" and "Text m' = Text m"
    and "PowerState m' = PowerState m" and "bus_rx m' = bus_rx m"
    by blast+
qed

lemma Print_loop_done:
  "\<not> i < strlen str \<Longrightarrow>
     HD44780_Print_loop str startindex i m = Some (HD44780_Get_Cursor_Position m)"
  by (subst HD44780_Print_loop.simps) simp

lemma Print_loop_overflow:
  "i < strlen str \<Longrightarrow> unat startindex + i > HD44780_NUM_ELEMENTS - 1 \<Longrightarrow>
     HD44780_Print_loop str startindex i m = HD44780_Set_Cursor_Position m 0 0"
  by (subst HD44780_Print_loop.simps) simp

lemma Print_loop_step:
  "i < strlen str \<Longrightarrow> \<not> unat startindex + i > HD44780_NUM_ELEMENTS - 1 \<Longrightarrow>
     HD44780_Print_loop str startindex i m =
       (case HD44780_Send_Data m (str ! i) True of
          None \<Rightarrow> None
        | Some m1 \<Rightarrow>
            if unat (AddressCounter m1) = HD44780_NUM_COLS
            then (case HD44780_Set_Cursor_Position
                         (m1\<lparr>Text := (Text m1)[unat startindex + i := str ! i]\<rparr>) 1 0 of
                    None \<Rightarrow> None
                  | Some m3 \<Rightarrow> HD44780_Print_loop str startindex (Suc i) m3)
            else HD44780_Print_loop str startindex (Suc i)
                   (m1\<lparr>Text := (Text m1)[unat startindex + i := str ! i]\<rparr>))"
  by (subst HD44780_Print_loop.simps) (simp add: Let_def split: option.splits)

text \<open>
  One round of the loop that sends a character, seen from outside: the machine the next
  round starts from has the character in the text array, the data frame on the bus, and
  after it nothing but status reads and, possibly, the instruction 0xC0.
\<close>

lemma Print_loop_round:
  assumes "i < strlen str" and "\<not> unat startindex + i > HD44780_NUM_ELEMENTS - 1"
    and "HD44780_Print_loop str startindex i m = Some m'"
  shows "\<exists>m2 X. HD44780_Print_loop str startindex (Suc i) m2 = Some m' \<and>
           Text m2 = (Text m)[unat startindex + i := str ! i] \<and>
           Cursor_Position m2 = Cursor_Position m \<and> PowerState m2 = PowerState m \<and>
           bus_rx m2 = bus_rx m \<and>
           bus_tx m2 = bus_tx m @ data_frame (str ! i) @ X \<and>
           data_nibbles X = [] \<and> (command_nibbles X = [] \<or> command_nibbles X = nibbles_of 0xC0)"
proof -
  from assms obtain m1 where m1: "HD44780_Send_Data m (str ! i) True = Some m1"
    by (auto simp: Print_loop_step split: option.splits)
  from Send_Data_Some [OF m1] obtain n where n:
    "bus_tx m1 = bus_tx m @ data_frame (str ! i) @ concat (replicate n status_frame)"
    and f1: "Cursor_Position m1 = Cursor_Position m" "Text m1 = Text m"
      "PowerState m1 = PowerState m" "bus_rx m1 = bus_rx m"
    by blast
  let ?m2 = "m1\<lparr>Text := (Text m1)[unat startindex + i := str ! i]\<rparr>"
  show ?thesis
  proof (cases "unat (AddressCounter m1) = HD44780_NUM_COLS")
    case False
    with assms m1 have "HD44780_Print_loop str startindex (Suc i) ?m2 = Some m'"
      by (simp add: Print_loop_step)
    with n f1 show ?thesis
      by (intro exI [of _ ?m2] exI [of _ "concat (replicate n status_frame)"]) simp
  next
    case True
    with assms m1 obtain m3 where m3: "HD44780_Set_Cursor_Position ?m2 1 0 = Some m3"
      and r: "HD44780_Print_loop str startindex (Suc i) m3 = Some m'"
      by (auto simp: Print_loop_step split: option.splits)
    have rg: "unat (1::u8) < HD44780_NUM_ROWS" "unat (0::u8) < HD44780_NUM_COLS"
      by (simp_all add: geometry)
    from Set_Cursor_Position_Some(1) [OF m3 rg] obtain k where
      k: "bus_tx m3 = bus_tx ?m2 @ command_frame 0xC0 @ concat (replicate k status_frame)"
      by auto
    note f3 = Set_Cursor_Position_Some(2-5) [OF m3 rg]
    from r n f1 k f3 show ?thesis
      by (intro exI [of _ m3] exI [of _ "concat (replicate n status_frame) @ command_frame 0xC0
            @ concat (replicate k status_frame)"]) simp
  qed
qed

text \<open>
  The loop from round \<open>i\<close> on, when it returns: the text array holds the characters
  \<open>i, i + 1, \<dots>\<close> of the string at the indices \<open>startindex + i, \<dots>\<close> up to the end of
  the array and is otherwise as before, and the data nibbles on the bus are those of
  these characters, in order.
\<close>

lemma Print_loop_Some:
  assumes "HD44780_Print_loop str startindex i m = Some m'"
    and "length (Text m) = HD44780_NUM_ELEMENTS"
  shows "length (Text m') = HD44780_NUM_ELEMENTS \<and> PowerState m' = PowerState m \<and>
         bus_rx m' = bus_rx m \<and>
         (\<forall>k < HD44780_NUM_ELEMENTS.
            Text m' ! k = (if unat startindex + i \<le> k \<and> k < unat startindex + strlen str
                           then str ! (k - unat startindex) else Text m ! k)) \<and>
         (\<exists>X. bus_tx m' = bus_tx m @ X \<and>
              data_nibbles X = concat (map nibbles_of
                (drop i (take (min (strlen str) (HD44780_NUM_ELEMENTS - unat startindex)) str))))"
  using assms
proof (induction "strlen str - i" arbitrary: i m)
  case 0
  then have "\<not> i < strlen str" by simp
  with "0.prems" have m': "m' = HD44780_Get_Cursor_Position m"
    by (simp add: Print_loop_done)
  let ?N = "min (strlen str) (HD44780_NUM_ELEMENTS - unat startindex)"
  from \<open>\<not> i < strlen str\<close> have d: "drop i (take ?N str) = []"
    by simp
  have "\<exists>X. bus_tx m' = bus_tx m @ X \<and> data_nibbles X = concat (map nibbles_of (drop i (take ?N str)))"
    unfolding d m' by (intro exI [of _ status_frame]) simp
  moreover have "\<forall>k < HD44780_NUM_ELEMENTS.
            Text m' ! k = (if unat startindex + i \<le> k \<and> k < unat startindex + strlen str
                           then str ! (k - unat startindex) else Text m ! k)"
    using \<open>\<not> i < strlen str\<close> unfolding m' by auto
  ultimately show ?case using "0.prems"(2) unfolding m' by simp
next
  case (Suc n)
  then have i: "i < strlen str" by simp
  let ?N = "min (strlen str) (HD44780_NUM_ELEMENTS - unat startindex)"
  show ?case
  proof (cases "unat startindex + i > HD44780_NUM_ELEMENTS - 1")
    case True
    with i Suc.prems have s: "HD44780_Set_Cursor_Position m 0 0 = Some m'"
      by (simp add: Print_loop_overflow)
    have rg: "unat (0::u8) < HD44780_NUM_ROWS" "unat (0::u8) < HD44780_NUM_COLS"
      by (simp_all add: geometry)
    from Set_Cursor_Position_Some(1) [OF s rg] obtain k where
      k: "bus_tx m' = bus_tx m @ command_frame 0x80 @ concat (replicate k status_frame)"
      by auto
    note f = Set_Cursor_Position_Some(2-5) [OF s rg]
    from True have "?N \<le> i" by (simp add: geometry)
    then have d: "drop i (take ?N str) = []" by simp
    have "\<exists>X. bus_tx m' = bus_tx m @ X \<and> data_nibbles X = concat (map nibbles_of (drop i (take ?N str)))"
      unfolding d using k
      by (intro exI [of _ "command_frame 0x80 @ concat (replicate k status_frame)"]) simp
    moreover have "\<forall>k < HD44780_NUM_ELEMENTS.
            Text m' ! k = (if unat startindex + i \<le> k \<and> k < unat startindex + strlen str
                           then str ! (k - unat startindex) else Text m ! k)"
      using True f by (auto simp: geometry)
    ultimately show ?thesis using f Suc.prems by simp
  next
    case False
    from Print_loop_round [OF i False Suc.prems(1)] obtain m2 X where
      r: "HD44780_Print_loop str startindex (Suc i) m2 = Some m'"
      and t2: "Text m2 = (Text m)[unat startindex + i := str ! i]"
      and f2: "PowerState m2 = PowerState m" "bus_rx m2 = bus_rx m"
      and b2: "bus_tx m2 = bus_tx m @ data_frame (str ! i) @ X" "data_nibbles X = []"
      by blast
    from Suc.hyps(2) i have n: "n = strlen str - Suc i" by simp
    from t2 Suc.prems(2) have l2: "length (Text m2) = HD44780_NUM_ELEMENTS" by simp
    from Suc.hyps(1) [OF n r l2] obtain Y where
      ih: "length (Text m') = HD44780_NUM_ELEMENTS" "PowerState m' = PowerState m2"
        "bus_rx m' = bus_rx m2"
        "\<forall>k < HD44780_NUM_ELEMENTS.
            Text m' ! k = (if unat startindex + Suc i \<le> k \<and> k < unat startindex + strlen str
                           then str ! (k - unat startindex) else Text m2 ! k)"
      and y: "bus_tx m' = bus_tx m2 @ Y"
        "data_nibbles Y = concat (map nibbles_of (drop (Suc i) (take ?N str)))"
      by blast
    from i False strlen_le [of str] have iN: "i < length (take ?N str)"
      by (simp add: geometry)
    then have "drop i (take ?N str) = take ?N str ! i # drop (Suc i) (take ?N str)"
      by (rule Cons_nth_drop_Suc [symmetric])
    also from iN have "take ?N str ! i = str ! i" by simp
    finally have d: "drop i (take ?N str) = str ! i # drop (Suc i) (take ?N str)" .
    have "\<exists>Z. bus_tx m' = bus_tx m @ Z \<and> data_nibbles Z = concat (map nibbles_of (drop i (take ?N str)))"
      unfolding d using y b2
      by (intro exI [of _ "data_frame (str ! i) @ X @ Y"]) simp
    moreover have "\<forall>k < HD44780_NUM_ELEMENTS.
            Text m' ! k = (if unat startindex + i \<le> k \<and> k < unat startindex + strlen str
                           then str ! (k - unat startindex) else Text m ! k)"
    proof (intro allI impI)
      fix k assume k: "k < HD44780_NUM_ELEMENTS"
      show "Text m' ! k = (if unat startindex + i \<le> k \<and> k < unat startindex + strlen str
                           then str ! (k - unat startindex) else Text m ! k)"
      proof (cases "k = unat startindex + i")
        case True
        with ih(4) k t2 Suc.prems(2) i show ?thesis by simp
      next
        case False
        with ih(4) k t2 show ?thesis by auto
      qed
    qed
    ultimately show ?thesis using ih f2 by simp
  qed
qed

lemma ready_for_ready: "ready_for (Suc n) m \<Longrightarrow> \<not> bit (bus_rx m (rx_count m)) 7"
  unfolding ready_for_def by (drule bspec [of _ _ 0]) auto

lemma ready_for_ready_within: "ready_for (Suc n) m \<Longrightarrow> ready_within 20 m"
  unfolding ready_within_def
  by (rule bexI [of _ 0]) (simp_all add: ready_for_ready)

lemma ready_for_mono: "ready_for n m \<Longrightarrow> n' \<le> n \<Longrightarrow> ready_for n' m"
  by (auto simp: ready_for_def)

lemma ready_for_advance:
  assumes "ready_for (Suc n) m" and "bus_rx m' = bus_rx m" and "rx_count m' = rx_count m + 2"
  shows "ready_for n m'"
  unfolding ready_for_def
proof
  fix k assume "k \<in> set [0 ..< n]"
  then have "Suc k \<in> set [0 ..< Suc n]" by auto
  with assms(1) have "\<not> bit (bus_rx m (rx_count m + 2 * Suc k)) 7"
    unfolding ready_for_def by (rule bspec)
  with assms(2,3) show "\<not> bit (bus_rx m' (rx_count m' + 2 * k)) 7"
    by simp
qed

lemma ready_for_Text [simp]: "ready_for n (m\<lparr>Text := t\<rparr>) = ready_for n m"
  by (simp add: ready_for_def)

lemma Send_Command_ready_for:
  assumes "ready_for (Suc n) m"
  shows "\<exists>m'. HD44780_Send_Command m c True = Some m' \<and> ready_for n m'"
proof -
  let ?m' = "m\<lparr>State := HD44780_READY, AddressCounter := next_status m AND 0x7F,
               bus_tx := bus_tx m @ command_frame c @ status_frame,
               rx_count := rx_count m + 2\<rparr>"
  have "HD44780_Send_Command m c True = Some ?m'"
    by (rule Send_Command_first_ready [OF ready_for_ready [OF assms]])
  moreover have "ready_for n ?m'"
    by (rule ready_for_advance [OF assms]) simp_all
  ultimately show ?thesis by blast
qed

lemma Send_Data_ready_for:
  assumes "ready_for (Suc n) m"
  shows "\<exists>m'. HD44780_Send_Data m c True = Some m' \<and> ready_for n m'"
proof -
  let ?m' = "m\<lparr>State := HD44780_READY, AddressCounter := next_status m AND 0x7F,
               bus_tx := bus_tx m @ data_frame c @ status_frame,
               rx_count := rx_count m + 2\<rparr>"
  have "HD44780_Send_Data m c True = Some ?m'"
    by (rule Send_Data_first_ready [OF ready_for_ready [OF assms]])
  moreover have "ready_for n ?m'"
    by (rule ready_for_advance [OF assms]) simp_all
  ultimately show ?thesis by blast
qed

lemma Set_Cursor_Position_ready_for:
  assumes "ready_for (Suc n) m"
  shows "\<exists>m'. HD44780_Set_Cursor_Position m row column = Some m' \<and> ready_for n m'"
proof (cases "unat row \<ge> HD44780_NUM_ROWS \<or> unat column \<ge> HD44780_NUM_COLS")
  case True
  with ready_for_mono [OF assms, of n] show ?thesis
    by (simp add: HD44780_Set_Cursor_Position_def)
next
  case False
  with Send_Command_ready_for [OF assms] show ?thesis
    by (simp add: HD44780_Set_Cursor_Position_def)
qed

text \<open>
  The loop returns when the display answers Ready to the status reads it can come to
  make: two for every character left, and one at the end.
\<close>

lemma Print_loop_returns:
  assumes "ready_for (2 * (strlen str - i) + 1) m"
  shows "\<exists>m'. HD44780_Print_loop str startindex i m = Some m'"
  using assms
proof (induction "strlen str - i" arbitrary: i m)
  case 0
  then show ?case by (simp add: Print_loop_done)
next
  case (Suc n)
  then have i: "i < strlen str" and n: "n = strlen str - Suc i" by simp_all
  from Suc.prems have r: "ready_for (Suc (Suc (2 * n + 1))) m"
    unfolding Suc.hyps(2) [symmetric] by simp
  show ?case
  proof (cases "unat startindex + i > HD44780_NUM_ELEMENTS - 1")
    case True
    with i Set_Cursor_Position_ready_for [OF r, of 0 0] show ?thesis
      by (auto simp: Print_loop_overflow)
  next
    case False
    from Send_Data_ready_for [OF r, of "str ! i"] obtain m1 where
      m1: "HD44780_Send_Data m (str ! i) True = Some m1" "ready_for (Suc (2 * n + 1)) m1"
      by blast
    let ?m2 = "m1\<lparr>Text := (Text m1)[unat startindex + i := str ! i]\<rparr>"
    from m1(2) have r2: "ready_for (Suc (2 * n + 1)) ?m2" by simp
    show ?thesis
    proof (cases "unat (AddressCounter m1) = HD44780_NUM_COLS")
      case True
      from Set_Cursor_Position_ready_for [OF r2, of 1 0] obtain m3 where
        m3: "HD44780_Set_Cursor_Position ?m2 1 0 = Some m3" "ready_for (2 * n + 1) m3"
        by blast
      from m3(2) have "ready_for (2 * (strlen str - Suc i) + 1) m3" unfolding n .
      from Suc.hyps(1) [OF n this] i False m1(1) True m3(1) show ?thesis
        by (simp add: Print_loop_step)
    next
      case no: False
      from ready_for_mono [OF r2, of "2 * n + 1"]
      have "ready_for (2 * (strlen str - Suc i) + 1) ?m2" unfolding n by simp
      from Suc.hyps(1) [OF n this] i False m1(1) no show ?thesis
        by (simp add: Print_loop_step)
    qed
  qed
qed

text \<open>
  When the string runs past the end of the text array, the loop leaves through
  \<^verbatim>\<open>HD44780_Set_Cursor_Position(.., 0, 0)\<close>: the bus traffic ends with the instruction
  0x80 and its status reads, and the cached cursor position is not refreshed.
\<close>

lemma Print_loop_overflow_end:
  assumes "HD44780_Print_loop str startindex i m = Some m'"
    and "i < strlen str" and "unat startindex + strlen str > HD44780_NUM_ELEMENTS"
  shows "Cursor_Position m' = Cursor_Position m \<and>
         (\<exists>Y n. bus_tx m' = bus_tx m @ Y @ command_frame 0x80 @ concat (replicate n status_frame))"
  using assms
proof (induction "strlen str - i" arbitrary: i m)
  case 0
  then show ?case by simp
next
  case (Suc n)
  show ?case
  proof (cases "unat startindex + i > HD44780_NUM_ELEMENTS - 1")
    case True
    with Suc.prems have s: "HD44780_Set_Cursor_Position m 0 0 = Some m'"
      by (simp add: Print_loop_overflow)
    have rg: "unat (0::u8) < HD44780_NUM_ROWS" "unat (0::u8) < HD44780_NUM_COLS"
      by (simp_all add: geometry)
    from Set_Cursor_Position_Some(1) [OF s rg] obtain k where
      "bus_tx m' = bus_tx m @ [] @ command_frame 0x80 @ concat (replicate k status_frame)"
      by auto
    then have "\<exists>Y n. bus_tx m' = bus_tx m @ Y @ command_frame 0x80 @ concat (replicate n status_frame)"
      by blast
    with Set_Cursor_Position_Some(2) [OF s rg] show ?thesis by simp
  next
    case False
    from Print_loop_round [OF Suc.prems(2) False Suc.prems(1)] obtain m2 X where
      r: "HD44780_Print_loop str startindex (Suc i) m2 = Some m'"
      and c2: "Cursor_Position m2 = Cursor_Position m"
      and b2: "bus_tx m2 = bus_tx m @ data_frame (str ! i) @ X"
      by blast
    from False Suc.prems(3) have i': "Suc i < strlen str" by (simp add: geometry)
    from Suc.hyps(2) have n: "n = strlen str - Suc i" by simp
    from Suc.hyps(1) [OF n r i' Suc.prems(3)] obtain Y k where
      "Cursor_Position m' = Cursor_Position m2"
      "bus_tx m' = bus_tx m2 @ Y @ command_frame 0x80 @ concat (replicate k status_frame)"
      by blast
    with c2 b2 have "Cursor_Position m' = Cursor_Position m"
      "bus_tx m' = bus_tx m @ (data_frame (str ! i) @ X @ Y) @ command_frame 0x80
         @ concat (replicate k status_frame)"
      by simp_all
    then show ?thesis by blast
  qed
qed

lemma Print_eq:
  "HD44780_Print m0 str =
     HD44780_Print_loop str
       (word_of_nat (unat (fst (Cursor_Position (HD44780_Get_Cursor_Position m0))) * HD44780_NUM_COLS
                     + unat (snd (Cursor_Position (HD44780_Get_Cursor_Position m0)))))
       0 (HD44780_Get_Cursor_Position m0)"
  by (simp add: HD44780_Print_def Let_def)

lemma Print_returns:
  assumes "ready_for (2 * strlen str + 2) m0"
  shows "\<exists>m'. HD44780_Print m0 str = Some m'"
proof -
  from assms have "ready_for (Suc (2 * (strlen str - 0) + 1)) m0" by simp
  then have "ready_for (2 * (strlen str - 0) + 1) (HD44780_Get_Cursor_Position m0)"
    by (rule ready_for_advance) simp_all
  from Print_loop_returns [OF this] show ?thesis
    unfolding Print_eq .
qed

text \<open>
  C7. Let \<open>startindex\<close> be the index \<^verbatim>\<open>HD44780_Print\<close> computes from the cursor position
  it reads at the start, and let the string have a character and run past the last
  index of the text array (\<open>startindex + strlen str > 32\<close>). The call returns when the
  display answers Ready to the next \<open>2 * strlen str + 2\<close> status reads. Whenever it
  returns, the text array holds the string's characters from \<open>startindex\<close> up to index
  31 and is otherwise unchanged; the data nibbles sent over the bus are exactly those of
  the first \<open>32 - startindex\<close> characters, in order; after them the bus carries the
  instruction 0x80 (DDRAM address 0, that is row 0, column 0) with its status reads and
  nothing else; and the cached cursor position is still the one read at the start.
\<close>

theorem C7_print_overflow:
  assumes "length (Text m0) = HD44780_NUM_ELEMENTS"
    and "m1 = HD44780_Get_Cursor_Position m0"
    and "startindex = unat (word_of_nat (unat (fst (Cursor_Position m1)) * HD44780_NUM_COLS
                                    + unat (snd (Cursor_Position m1))) :: u8)"
    and "0 < strlen str" and "startindex + strlen str > HD44780_NUM_ELEMENTS"
  shows "(ready_for (2 * strlen str + 2) m0 \<longrightarrow> (\<exists>m'. HD44780_Print m0 str = Some m')) \<and>
         (\<forall>m'. HD44780_Print m0 str = Some m' \<longrightarrow>
            length (Text m') = HD44780_NUM_ELEMENTS \<and>
            (\<forall>k < HD44780_NUM_ELEMENTS.
               Text m' ! k = (if startindex \<le> k then str ! (k - startindex) else Text m0 ! k)) \<and>
            (\<exists>Y n. sent m0 m' = Y @ command_frame 0x80 @ concat (replicate n status_frame) \<and>
                  data_nibbles Y =
                    concat (map nibbles_of (take (HD44780_NUM_ELEMENTS - startindex) str))) \<and>
            last_command (bus_tx m') = 0x80 \<and>
            Cursor_Position m' = Cursor_Position m1)"
proof -
  let ?si = "word_of_nat (unat (fst (Cursor_Position m1)) * HD44780_NUM_COLS
                                    + unat (snd (Cursor_Position m1))) :: u8"
  have P: "HD44780_Print m0 str = HD44780_Print_loop str ?si 0 m1"
    unfolding assms(2) by (rule Print_eq)
  have returns: "\<exists>m'. HD44780_Print m0 str = Some m'"
    if "ready_for (2 * strlen str + 2) m0"
    using that by (rule Print_returns)
  have result: "length (Text m') = HD44780_NUM_ELEMENTS \<and>
            (\<forall>k < HD44780_NUM_ELEMENTS.
               Text m' ! k = (if startindex \<le> k then str ! (k - startindex) else Text m0 ! k)) \<and>
            (\<exists>Y n. sent m0 m' = Y @ command_frame 0x80 @ concat (replicate n status_frame) \<and>
                  data_nibbles Y =
                    concat (map nibbles_of (take (HD44780_NUM_ELEMENTS - startindex) str))) \<and>
            last_command (bus_tx m') = 0x80 \<and>
            Cursor_Position m' = Cursor_Position m1"
    if "HD44780_Print m0 str = Some m'" for m'
  proof -
    from that have r: "HD44780_Print_loop str ?si 0 m1 = Some m'" unfolding P .
    have l1: "length (Text m1) = HD44780_NUM_ELEMENTS" "Text m1 = Text m0"
      "bus_tx m1 = bus_tx m0 @ status_frame"
      using assms(1) unfolding assms(2) by simp_all
    from Print_loop_Some [OF r l1(1)] obtain X where
      t: "length (Text m') = HD44780_NUM_ELEMENTS"
        "\<forall>k < HD44780_NUM_ELEMENTS.
              Text m' ! k = (if unat ?si + 0 \<le> k \<and> k < unat ?si + strlen str
                             then str ! (k - unat ?si) else Text m1 ! k)"
      and x: "bus_tx m' = bus_tx m1 @ X"
        "data_nibbles X = concat (map nibbles_of
            (drop 0 (take (min (strlen str) (HD44780_NUM_ELEMENTS - unat ?si)) str)))"
      by blast
    from Print_loop_overflow_end [OF r assms(4)] assms(5) obtain Y n where
      c: "Cursor_Position m' = Cursor_Position m1"
      and y: "bus_tx m' = bus_tx m1 @ Y @ command_frame 0x80 @ concat (replicate n status_frame)"
      unfolding assms(3) by blast
    have mirror: "\<forall>k < HD44780_NUM_ELEMENTS.
               Text m' ! k = (if startindex \<le> k then str ! (k - startindex) else Text m0 ! k)"
      using t(2) assms(5) l1(2) unfolding assms(3) by auto
    from x(1) y have X: "X = Y @ command_frame 0x80 @ concat (replicate n status_frame)"
      by simp
    from assms(5) have "min (strlen str) (HD44780_NUM_ELEMENTS - startindex)
        = HD44780_NUM_ELEMENTS - startindex" by simp
    with x(2) have "data_nibbles Y
        = concat (map nibbles_of (take (HD44780_NUM_ELEMENTS - startindex) str))"
      unfolding X assms(3) by simp
    moreover from y l1(3) have
      "sent m0 m' = (status_frame @ Y) @ command_frame 0x80 @ concat (replicate n status_frame)"
      by (simp add: sent_def)
    ultimately have wire:
      "\<exists>Y n. sent m0 m' = Y @ command_frame 0x80 @ concat (replicate n status_frame) \<and>
             data_nibbles Y =
               concat (map nibbles_of (take (HD44780_NUM_ELEMENTS - startindex) str))"
      by (intro exI [of _ "status_frame @ Y"] exI [of _ n]) simp
    have "last_command (bus_tx m') = 0x80"
      unfolding y
      using last_command_frame [of "concat (replicate n status_frame)" "bus_tx m1 @ Y" "0x80"]
      by simp
    with t(1) mirror wire c show ?thesis by blast
  qed
  from returns result show ?thesis by blast
qed


lemma example_machine_ready_for: "ready_for n (example_machine 0 0x4E)"
  by (simp add: ready_for_def example_machine_def)

lemma example_machine_status: "next_status (example_machine 0 a) = a"
  by (simp add: next_status_def example_machine_def bits8 bit_simps)

theorem C7_print_overflow_witness:
  "\<exists>m'. HD44780_Print (example_machine 0 0x4E) [0x41, 0x42, 0x43] = Some m' \<and>
        length (Text m') = 32 \<and> Text m' ! 29 = 0 \<and> Text m' ! 30 = 0x41 \<and> Text m' ! 31 = 0x42 \<and>
        (\<exists>Y n. sent (example_machine 0 0x4E) m'
                  = Y @ command_frame 0x80 @ concat (replicate n status_frame) \<and>
               data_nibbles Y = [0x40, 0x10, 0x40, 0x20]) \<and>
        last_command (bus_tx m') = 0x80 \<and> Cursor_Position m' = (1, 14)"
proof -
  let ?m0 = "example_machine 0 0x4E"
  let ?str = "[0x41, 0x42, 0x43] :: u8 list"
  have c: "Cursor_Position (HD44780_Get_Cursor_Position ?m0) = (1, 14)"
    by (simp add: Get_Cursor_Position_cursor Check_Status_AddressCounter example_machine_status)
  have len: "length (Text ?m0) = HD44780_NUM_ELEMENTS"
    by (simp add: example_machine_def geometry)
  have si: "(30::nat) = unat (word_of_nat
      (unat (fst (Cursor_Position (HD44780_Get_Cursor_Position ?m0))) * HD44780_NUM_COLS
       + unat (snd (Cursor_Position (HD44780_Get_Cursor_Position ?m0)))) :: u8)"
    by (simp add: c geometry)
  have n: "0 < strlen ?str" "30 + strlen ?str > HD44780_NUM_ELEMENTS"
    by (simp_all add: strlen_def geometry)
  note C = C7_print_overflow [OF len refl si n]
  from C example_machine_ready_for obtain m' where p: "HD44780_Print ?m0 ?str = Some m'"
    by blast
  with C have "length (Text m') = HD44780_NUM_ELEMENTS \<and>
      (\<forall>k < HD44780_NUM_ELEMENTS.
         Text m' ! k = (if 30 \<le> k then ?str ! (k - 30) else Text ?m0 ! k)) \<and>
      (\<exists>Y n. sent ?m0 m' = Y @ command_frame 0x80 @ concat (replicate n status_frame) \<and>
            data_nibbles Y = concat (map nibbles_of (take (HD44780_NUM_ELEMENTS - 30) ?str))) \<and>
      last_command (bus_tx m') = 0x80 \<and>
      Cursor_Position m' = Cursor_Position (HD44780_Get_Cursor_Position ?m0)"
    by blast
  then have "length (Text m') = 32 \<and> Text m' ! 29 = 0 \<and> Text m' ! 30 = 0x41 \<and>
      Text m' ! 31 = 0x42 \<and>
      (\<exists>Y n. sent ?m0 m' = Y @ command_frame 0x80 @ concat (replicate n status_frame) \<and>
            data_nibbles Y = [0x40, 0x10, 0x40, 0x20]) \<and>
      last_command (bus_tx m') = 0x80 \<and> Cursor_Position m' = (1, 14)"
    by (simp add: c geometry nibbles_of_def) (simp add: example_machine_def)
  with p show ?thesis by blast
qed

text \<open>
  C6. Let \<open>si\<close> be the index \<^verbatim>\<open>HD44780_Print\<close> computes from the cursor position it reads
  at the start. The call returns when the display answers Ready to the next
  \<open>2 * strlen str + 2\<close> status reads. Whenever it returns, the text array holds character
  \<open>j\<close> of the string at index \<open>si + j\<close>, for every \<open>j\<close> with \<open>si + j\<close> inside the array,
  and is otherwise unchanged, and the data nibbles sent over the bus are those of these
  characters, once each and in order: the row boundary between index 15 and index 16
  leaves no gap and repeats nothing. In any round of the loop, when the status read that
  confirms the character reports address 16 (the address counter has stepped past column
  15 of row 0), the loop sends the instruction 0xC0, which sets the address that
  translates to row 1, column 0, and goes on with the next character; when it reports
  another address, the loop goes on without an instruction.
\<close>

theorem C6_print_wraps_to_second_row:
  assumes "length (Text m0) = HD44780_NUM_ELEMENTS"
    and "m1 = HD44780_Get_Cursor_Position m0"
    and "si = (word_of_nat (unat (fst (Cursor_Position m1)) * HD44780_NUM_COLS
                             + unat (snd (Cursor_Position m1))) :: u8)"
  shows "(ready_for (2 * strlen str + 2) m0 \<longrightarrow> (\<exists>m'. HD44780_Print m0 str = Some m')) \<and>
         (\<forall>m'. HD44780_Print m0 str = Some m' \<longrightarrow>
            (\<forall>k < HD44780_NUM_ELEMENTS.
               Text m' ! k = (if unat si \<le> k \<and> k < unat si + strlen str
                              then str ! (k - unat si) else Text m0 ! k)) \<and>
            data_nibbles (sent m0 m') =
              concat (map nibbles_of
                (take (min (strlen str) (HD44780_NUM_ELEMENTS - unat si)) str))) \<and>
         (\<forall>i m ma. i < strlen str \<longrightarrow> unat si + i < HD44780_NUM_ELEMENTS \<longrightarrow>
            HD44780_Send_Data m (str ! i) True = Some ma \<longrightarrow>
            (unat (AddressCounter ma) = HD44780_NUM_COLS \<longrightarrow>
               HD44780_Print_loop str si i m =
                 (case HD44780_Set_Cursor_Position
                         (ma\<lparr>Text := (Text ma)[unat si + i := str ! i]\<rparr>) 1 0 of
                    None \<Rightarrow> None
                  | Some mb \<Rightarrow> HD44780_Print_loop str si (Suc i) mb) \<and>
               (\<forall>mb. HD44780_Set_Cursor_Position
                         (ma\<lparr>Text := (Text ma)[unat si + i := str ! i]\<rparr>) 1 0 = Some mb \<longrightarrow>
                  last_command (bus_tx mb) = 0xC0 \<and>
                  command_nibbles (sent ma mb) = nibbles_of 0xC0 \<and>
                  data_nibbles (sent ma mb) = [] \<and>
                  Text mb = (Text m)[unat si + i := str ! i])) \<and>
            (unat (AddressCounter ma) \<noteq> HD44780_NUM_COLS \<longrightarrow>
               HD44780_Print_loop str si i m =
                 HD44780_Print_loop str si (Suc i)
                   (ma\<lparr>Text := (Text ma)[unat si + i := str ! i]\<rparr>))) \<and>
         (\<forall>mm. next_status mm = 0xC0 AND 0x7F \<longrightarrow>
            Cursor_Position (HD44780_Get_Cursor_Position mm) = (1, 0))"
proof -
  have P: "HD44780_Print m0 str = HD44780_Print_loop str si 0 m1"
    unfolding assms(2,3) by (rule Print_eq)
  have returns: "\<exists>m'. HD44780_Print m0 str = Some m'"
    if "ready_for (2 * strlen str + 2) m0"
    using that by (rule Print_returns)
  have result: "(\<forall>k < HD44780_NUM_ELEMENTS.
               Text m' ! k = (if unat si \<le> k \<and> k < unat si + strlen str
                              then str ! (k - unat si) else Text m0 ! k)) \<and>
            data_nibbles (sent m0 m') =
              concat (map nibbles_of
                (take (min (strlen str) (HD44780_NUM_ELEMENTS - unat si)) str))"
    if "HD44780_Print m0 str = Some m'" for m'
  proof -
    from that have r: "HD44780_Print_loop str si 0 m1 = Some m'" unfolding P .
    have l1: "length (Text m1) = HD44780_NUM_ELEMENTS" "Text m1 = Text m0"
      "bus_tx m1 = bus_tx m0 @ status_frame"
      using assms(1) unfolding assms(2) by simp_all
    from Print_loop_Some [OF r l1(1)] obtain X where
      t: "\<forall>k < HD44780_NUM_ELEMENTS.
              Text m' ! k = (if unat si + 0 \<le> k \<and> k < unat si + strlen str
                             then str ! (k - unat si) else Text m1 ! k)"
      and x: "bus_tx m' = bus_tx m1 @ X"
        "data_nibbles X = concat (map nibbles_of
            (drop 0 (take (min (strlen str) (HD44780_NUM_ELEMENTS - unat si)) str)))"
      by blast
    from x l1(3) have "data_nibbles (sent m0 m') =
              concat (map nibbles_of
                (take (min (strlen str) (HD44780_NUM_ELEMENTS - unat si)) str))"
      by (simp add: sent_def)
    with t l1(2) show ?thesis by simp
  qed
  have round: "(unat (AddressCounter ma) = HD44780_NUM_COLS \<longrightarrow>
               HD44780_Print_loop str si i m =
                 (case HD44780_Set_Cursor_Position
                         (ma\<lparr>Text := (Text ma)[unat si + i := str ! i]\<rparr>) 1 0 of
                    None \<Rightarrow> None
                  | Some mb \<Rightarrow> HD44780_Print_loop str si (Suc i) mb) \<and>
               (\<forall>mb. HD44780_Set_Cursor_Position
                         (ma\<lparr>Text := (Text ma)[unat si + i := str ! i]\<rparr>) 1 0 = Some mb \<longrightarrow>
                  last_command (bus_tx mb) = 0xC0 \<and>
                  command_nibbles (sent ma mb) = nibbles_of 0xC0 \<and>
                  data_nibbles (sent ma mb) = [] \<and>
                  Text mb = (Text m)[unat si + i := str ! i])) \<and>
            (unat (AddressCounter ma) \<noteq> HD44780_NUM_COLS \<longrightarrow>
               HD44780_Print_loop str si i m =
                 HD44780_Print_loop str si (Suc i)
                   (ma\<lparr>Text := (Text ma)[unat si + i := str ! i]\<rparr>))"
    if i: "i < strlen str" "unat si + i < HD44780_NUM_ELEMENTS"
      and ma: "HD44780_Send_Data m (str ! i) True = Some ma" for i m ma
  proof -
    let ?m2 = "ma\<lparr>Text := (Text ma)[unat si + i := str ! i]\<rparr>"
    from i(2) have no: "\<not> unat si + i > HD44780_NUM_ELEMENTS - 1" by simp
    have step: "HD44780_Print_loop str si i m =
        (if unat (AddressCounter ma) = HD44780_NUM_COLS
         then (case HD44780_Set_Cursor_Position ?m2 1 0 of
                 None \<Rightarrow> None
               | Some mb \<Rightarrow> HD44780_Print_loop str si (Suc i) mb)
         else HD44780_Print_loop str si (Suc i) ?m2)"
      by (simp add: Print_loop_step [OF i(1) no] ma)
    have moved: "last_command (bus_tx mb) = 0xC0 \<and>
                  command_nibbles (sent ma mb) = nibbles_of 0xC0 \<and>
                  data_nibbles (sent ma mb) = [] \<and>
                  Text mb = (Text m)[unat si + i := str ! i]"
      if mb: "HD44780_Set_Cursor_Position ?m2 1 0 = Some mb" for mb
    proof -
      have rg: "unat (1::u8) < HD44780_NUM_ROWS" "unat (0::u8) < HD44780_NUM_COLS"
        by (simp_all add: geometry)
      from Set_Cursor_Position_Some(1) [OF mb rg] obtain n where
        n: "bus_tx mb = bus_tx ma @ command_frame 0xC0 @ concat (replicate n status_frame)"
        by auto
      from Set_Cursor_Position_Some(3) [OF mb rg] Send_Data_Some [OF ma]
      have "Text mb = (Text m)[unat si + i := str ! i]" by simp
      moreover have "last_command (bus_tx mb) = 0xC0"
        unfolding n by (rule last_command_frame) simp
      moreover from n have "command_nibbles (sent ma mb) = nibbles_of 0xC0"
        "data_nibbles (sent ma mb) = []"
        by (simp_all add: sent_def)
      ultimately show ?thesis by simp
    qed
    from step moved show ?thesis by simp
  qed
  have row1: "Cursor_Position (HD44780_Get_Cursor_Position mm) = (1, 0)"
    if "next_status mm = 0xC0 AND 0x7F" for mm
  proof -
    from that have s: "next_status mm = 0x40" by simp
    then have "\<not> bit (next_status mm) 7" by simp
    with s show ?thesis
      by (simp add: Get_Cursor_Position_cursor Check_Status_AddressCounter Let_def)
  qed
  from returns result round row1 show ?thesis by blast
qed

lemma wrap_machine_ready_for: "ready_for n wrap_machine"
proof -
  have "\<not> bit (bus_rx wrap_machine (2 * k)) 7" for k
  proof (cases "k < 6")
    case True
    then have "k \<in> {0, 1, 2, 3, 4, 5}" by auto
    then show ?thesis by (auto simp: wrap_machine_def)
  next
    case False
    then show ?thesis by (simp add: wrap_machine_def)
  qed
  then show ?thesis by (simp add: ready_for_def wrap_machine_def)
qed

lemma wrap_machine_start:
  "Cursor_Position (HD44780_Get_Cursor_Position wrap_machine) = (0, 14)"
  by (simp add: Get_Cursor_Position_cursor Check_Status_AddressCounter next_status_def
      wrap_machine_def)

lemma wrap_machine_run:
  "HD44780_Print wrap_machine [0x41, 0x42, 0x43] =
     Some (wrap_machine\<lparr>Cursor_Position := (1, 1),
             Text := (replicate 32 0)[14 := 0x41, 15 := 0x42, 16 := 0x43],
             State := HD44780_READY, AddressCounter := 0x41,
             bus_tx := status_frame @ data_frame 0x41 @ status_frame
                       @ data_frame 0x42 @ status_frame @ command_frame 0xC0 @ status_frame
                       @ data_frame 0x43 @ status_frame @ status_frame,
             rx_count := 12\<rparr>)"
  apply (simp add: Print_eq wrap_machine_start geometry)
  apply (simp add: Print_loop_step Print_loop_done strlen_def geometry Send_Data_first_ready
      Send_Command_first_ready HD44780_Set_Cursor_Position_def
      HD44780_Get_Cursor_Position_def Check_Status_eq next_status_def Let_def wrap_machine_def)
  done


theorem C6_print_wraps_to_second_row_witness:
  "(\<exists>m'. HD44780_Print wrap_machine [0x41, 0x42, 0x43] = Some m' \<and>
         Text m' ! 13 = 0 \<and> Text m' ! 14 = 0x41 \<and> Text m' ! 15 = 0x42 \<and>
         Text m' ! 16 = 0x43 \<and> Text m' ! 17 = 0 \<and>
         data_nibbles (sent wrap_machine m') = [0x40, 0x10, 0x40, 0x20, 0x40, 0x30] \<and>
         command_nibbles (sent wrap_machine m') = [0xC0, 0x00] \<and>
         Cursor_Position m' = (1, 1)) \<and>
   (\<exists>ma mb. HD44780_Send_Data
               (wrap_machine\<lparr>Text := (replicate 32 0)[14 := 0x41], rx_count := 4\<rparr>)
               0x42 True = Some ma \<and>
            unat (AddressCounter ma) = 16 \<and>
            HD44780_Set_Cursor_Position (ma\<lparr>Text := (Text ma)[15 := 0x42]\<rparr>) 1 0 = Some mb \<and>
            last_command (bus_tx mb) = 0xC0 \<and>
            Text mb = (replicate 32 0)[14 := 0x41, 15 := 0x42])"
proof -
  let ?str = "[0x41, 0x42, 0x43] :: u8 list"
  have len: "length (Text wrap_machine) = HD44780_NUM_ELEMENTS"
    by (simp add: wrap_machine_def geometry)
  have si: "(14 :: u8) = word_of_nat
      (unat (fst (Cursor_Position (HD44780_Get_Cursor_Position wrap_machine))) * HD44780_NUM_COLS
       + unat (snd (Cursor_Position (HD44780_Get_Cursor_Position wrap_machine))))"
    by (simp add: wrap_machine_start geometry)
  note C = C6_print_wraps_to_second_row [OF len refl si, of ?str]
  from C wrap_machine_ready_for obtain m' where
    p: "HD44780_Print wrap_machine ?str = Some m'" by blast
  with C have
    "(\<forall>k < HD44780_NUM_ELEMENTS.
        Text m' ! k = (if unat (14 :: u8) \<le> k \<and> k < unat (14 :: u8) + strlen ?str
                       then ?str ! (k - unat (14 :: u8)) else Text wrap_machine ! k)) \<and>
     data_nibbles (sent wrap_machine m') =
       concat (map nibbles_of
         (take (min (strlen ?str) (HD44780_NUM_ELEMENTS - unat (14 :: u8))) ?str))"
    by blast
  then have t: "Text m' ! 13 = 0 \<and> Text m' ! 14 = 0x41 \<and> Text m' ! 15 = 0x42 \<and>
      Text m' ! 16 = 0x43 \<and> Text m' ! 17 = 0 \<and>
      data_nibbles (sent wrap_machine m') = [0x40, 0x10, 0x40, 0x20, 0x40, 0x30]"
    by (simp add: geometry strlen_def nibbles_of_def) (simp add: wrap_machine_def)
  from p have "command_nibbles (sent wrap_machine m') = [0xC0, 0x00] \<and>
      Cursor_Position m' = (1, 1)"
    by (auto simp: wrap_machine_run sent_def) (simp_all add: wrap_machine_def nibbles_of_def)
  with p t have first: "\<exists>m'. HD44780_Print wrap_machine ?str = Some m' \<and>
         Text m' ! 13 = 0 \<and> Text m' ! 14 = 0x41 \<and> Text m' ! 15 = 0x42 \<and>
         Text m' ! 16 = 0x43 \<and> Text m' ! 17 = 0 \<and>
         data_nibbles (sent wrap_machine m') = [0x40, 0x10, 0x40, 0x20, 0x40, 0x30] \<and>
         command_nibbles (sent wrap_machine m') = [0xC0, 0x00] \<and>
         Cursor_Position m' = (1, 1)"
    by blast
  let ?m = "wrap_machine\<lparr>Text := (replicate 32 0)[14 := 0x41], rx_count := 4\<rparr>"
  let ?ma = "?m\<lparr>State := HD44780_READY, AddressCounter := next_status ?m AND 0x7F,
                bus_tx := bus_tx ?m @ data_frame 0x42 @ status_frame,
                rx_count := rx_count ?m + 2\<rparr>"
  have "\<not> bit (bus_rx ?m (rx_count ?m)) 7" by (simp add: wrap_machine_def)
  from Send_Data_first_ready [OF this, of "0x42"]
  have ma: "HD44780_Send_Data ?m (?str ! 1) True = Some ?ma" by simp
  have ac: "unat (AddressCounter ?ma) = HD44780_NUM_COLS"
    by (simp add: next_status_def wrap_machine_def geometry)
  have tm: "Text ?ma = (replicate 32 0)[14 := 0x41]" by simp
  have nb: "ready_for (Suc 0) (?ma\<lparr>Text := (Text ?ma)[15 := 0x42]\<rparr>)"
    by (simp add: ready_for_def wrap_machine_def)
  from Set_Cursor_Position_ready_for [OF nb, of 1 0] obtain mb where
    mb: "HD44780_Set_Cursor_Position (?ma\<lparr>Text := (Text ?ma)[15 := 0x42]\<rparr>) 1 0 = Some mb"
    by blast
  have b: "1 < strlen ?str" "unat (14 :: u8) + 1 < HD44780_NUM_ELEMENTS"
    by (simp_all add: strlen_def geometry)
  have mb': "HD44780_Set_Cursor_Position
      (?ma\<lparr>Text := (Text ?ma)[unat (14 :: u8) + 1 := ?str ! 1]\<rparr>) 1 0 = Some mb"
    using mb by simp
  note B = C [THEN conjunct2, THEN conjunct2, THEN conjunct1, rule_format, of 1 ?m ?ma]
  from B [OF b ma, THEN conjunct1, rule_format, OF ac, THEN conjunct2, rule_format, OF mb']
  have "last_command (bus_tx mb) = 0xC0 \<and>
      Text mb = (Text ?m)[unat (14 :: u8) + 1 := ?str ! 1]"
    by blast
  then have "last_command (bus_tx mb) = 0xC0 \<and> Text mb = (replicate 32 0)[14 := 0x41, 15 := 0x42]"
    by simp
  with ma ac mb have second: "\<exists>ma mb. HD44780_Send_Data ?m 0x42 True = Some ma \<and>
            unat (AddressCounter ma) = 16 \<and>
            HD44780_Set_Cursor_Position (ma\<lparr>Text := (Text ma)[15 := 0x42]\<rparr>) 1 0 = Some mb \<and>
            last_command (bus_tx mb) = 0xC0 \<and>
            Text mb = (replicate 32 0)[14 := 0x41, 15 := 0x42]"
    by (intro exI [of _ ?ma] exI [of _ mb]) (simp add: geometry)
  from first second show ?thesis by blast
qed

end
